theory Spec2Isabelle
  imports Complex_Main "HOL-Library.Sublist" "HOL-Library.AList"
begin

section \<open>Text and paths\<close>

text \<open>
  The program is \<^verbatim>\<open>claude_cli.py\<close>. Python strings are modelled as \<^typ>\<open>string\<close>.
  \<^verbatim>\<open>str.lower\<close> and \<^verbatim>\<open>str.upper\<close> are modelled on the ASCII letters; every
  other character is left as it is.
\<close>

definition lower_char :: "char \<Rightarrow> char" where
  "lower_char c =
     (case map_of (zip ''ABCDEFGHIJKLMNOPQRSTUVWXYZ'' ''abcdefghijklmnopqrstuvwxyz'') c of
        Some d \<Rightarrow> d
      | None \<Rightarrow> c)"

definition upper_char :: "char \<Rightarrow> char" where
  "upper_char c =
     (case map_of (zip ''abcdefghijklmnopqrstuvwxyz'' ''ABCDEFGHIJKLMNOPQRSTUVWXYZ'') c of
        Some d \<Rightarrow> d
      | None \<Rightarrow> c)"

definition lower :: "string \<Rightarrow> string" where
  "lower s = map lower_char s"

definition upper :: "string \<Rightarrow> string" where
  "upper s = map upper_char s"

text \<open>\<^verbatim>\<open>sep.join(items)\<close>.\<close>

fun join :: "string \<Rightarrow> string list \<Rightarrow> string" where
  "join sep [] = []"
| "join sep [x] = x"
| "join sep (x # y # ys) = x @ sep @ join sep (y # ys)"

text \<open>
  A \<^verbatim>\<open>pathlib.Path\<close> is the list of its components. The model is the POSIX flavour
  with paths read from the working directory, which is the top of the modelled file
  system (the empty list): \<^verbatim>\<open>Path\<close> splits at \<^verbatim>\<open>/\<close> and drops empty and \<^verbatim>\<open>.\<close>
  components, \<^verbatim>\<open>str\<close> joins them again and prints the empty path as \<^verbatim>\<open>.\<close>.
  Anchors of absolute paths, \<^verbatim>\<open>..\<close> segments and symbolic links are not modelled.
\<close>

type_synonym path = "string list"

text \<open>Splitting a text at a separator character, \<open>acc\<close> being the piece read so far.\<close>

fun split_on :: "char \<Rightarrow> string \<Rightarrow> string \<Rightarrow> string list" where
  "split_on sep acc [] = [acc]"
| "split_on sep acc (c # cs) =
     (if c = sep then acc # split_on sep [] cs else split_on sep (acc @ [c]) cs)"

definition Path :: "string \<Rightarrow> path" where
  "Path s = filter (\<lambda>c. c \<noteq> [] \<and> c \<noteq> ''.'') (split_on (CHR ''/'') [] s)"

definition path_str :: "path \<Rightarrow> string" where
  "path_str p = (if p = [] then ''.'' else join ''/'' p)"

text \<open>\<^verbatim>\<open>Path.name\<close>: the last component, empty for the empty path.\<close>

definition path_name :: "path \<Rightarrow> string" where
  "path_name p = (if p = [] then [] else last p)"

text \<open>
  \<^verbatim>\<open>str.rfind('.')\<close> as an option: the index of the last dot.
\<close>

fun rfind_dot :: "string \<Rightarrow> nat option" where
  "rfind_dot [] = None"
| "rfind_dot (c # cs) =
     (case rfind_dot cs of
        Some i \<Rightarrow> Some (Suc i)
      | None \<Rightarrow> (if c = CHR ''.'' then Some 0 else None))"

text \<open>
  \<^verbatim>\<open>Path.suffix\<close>: the part of the name from its last dot on, when that dot is
  neither the first nor the last character of the name; empty otherwise.
\<close>

definition path_suffix :: "path \<Rightarrow> string" where
  "path_suffix p =
     (let name = path_name p in
      case rfind_dot name of
        None \<Rightarrow> []
      | Some i \<Rightarrow> (if 0 < i \<and> i < length name - 1 then drop i name else []))"

section \<open>Language support\<close>

definition SUPPORTED_EXTS :: "string list" where
  "SUPPORTED_EXTS =
     [''.py'', ''.pyw'',
      ''.c'', ''.cpp'', ''.cc'', ''.cxx'', ''.h'', ''.hpp'',
      ''.java'',
      ''.kt'', ''.kts'',
      ''.js'', ''.jsx'',
      ''.ts'', ''.tsx'',
      ''.cs'',
      ''.go'',
      ''.rs'',
      ''.php'',
      ''.html'', ''.htm'',
      ''.css'',
      ''.json'',
      ''.yaml'', ''.yml'',
      ''.xml'']"

definition detect_language :: "path \<Rightarrow> string" where
  "detect_language p =
     (let ext = lower (path_suffix p) in
      if ext \<in> set [''.py'', ''.pyw''] then ''python''
      else if ext \<in> set [''.c'', ''.cpp'', ''.cc'', ''.cxx'', ''.h'', ''.hpp''] then ''cpp''
      else if ext = ''.java'' then ''java''
      else if ext \<in> set [''.kt'', ''.kts''] then ''kotlin''
      else if ext \<in> set [''.js'', ''.jsx''] then ''javascript''
      else if ext \<in> set [''.ts'', ''.tsx''] then ''typescript''
      else if ext = ''.cs'' then ''csharp''
      else if ext = ''.go'' then ''go''
      else if ext = ''.rs'' then ''rust''
      else if ext = ''.php'' then ''php''
      else if ext \<in> set [''.html'', ''.htm''] then ''html''
      else if ext = ''.css'' then ''css''
      else if ext = ''.json'' then ''json''
      else if ext \<in> set [''.yaml'', ''.yml''] then ''yaml''
      else if ext = ''.xml'' then ''xml''
      else ''text'')"

text \<open>
  The extension table as the specification presents it: each extension with its tag,
  and the fifteen tags other than the fallback.
\<close>

definition spec_language_table :: "(string \<times> string) list" where
  "spec_language_table =
     [(''.py'', ''python''), (''.pyw'', ''python''),
      (''.c'', ''cpp''), (''.cpp'', ''cpp''), (''.cc'', ''cpp''), (''.cxx'', ''cpp''),
      (''.h'', ''cpp''), (''.hpp'', ''cpp''),
      (''.java'', ''java''),
      (''.kt'', ''kotlin''), (''.kts'', ''kotlin''),
      (''.js'', ''javascript''), (''.jsx'', ''javascript''),
      (''.ts'', ''typescript''), (''.tsx'', ''typescript''),
      (''.cs'', ''csharp''),
      (''.go'', ''go''),
      (''.rs'', ''rust''),
      (''.php'', ''php''),
      (''.html'', ''html''), (''.htm'', ''html''),
      (''.css'', ''css''),
      (''.json'', ''json''),
      (''.yaml'', ''yaml''), (''.yml'', ''yaml''),
      (''.xml'', ''xml'')]"

definition spec_language_tags :: "string list" where
  "spec_language_tags =
     [''python'', ''cpp'', ''java'', ''kotlin'', ''javascript'', ''typescript'', ''csharp'',
      ''go'', ''rust'', ''php'', ''html'', ''css'', ''json'', ''yaml'', ''xml'']"

section \<open>The file system\<close>

text \<open>
  The file system is a list of entries, each a path with its node, in the order in which
  the system enumerates them. A regular file holds text when its bytes are valid UTF-8;
  \<open>NotUtf8\<close> stands for bytes that do not decode.
\<close>

datatype contents = Utf8 string | NotUtf8

datatype node = Dir | File contents

type_synonym fs = "(path \<times> node) list"

definition lookup :: "fs \<Rightarrow> path \<Rightarrow> node option" where
  "lookup fs p = map_of fs p"

definition path_exists :: "fs \<Rightarrow> path \<Rightarrow> bool" where
  "path_exists fs p = (lookup fs p \<noteq> None)"

definition is_dir :: "fs \<Rightarrow> path \<Rightarrow> bool" where
  "is_dir fs p = (lookup fs p = Some Dir)"

fun is_file_node :: "node option \<Rightarrow> bool" where
  "is_file_node (Some (File c)) = True"
| "is_file_node other = False"

definition is_file :: "fs \<Rightarrow> path \<Rightarrow> bool" where
  "is_file fs p = is_file_node (lookup fs p)"

text \<open>
  A well-formed file system: no path is listed twice, the top is a directory, every
  other entry lies in a directory that is listed, and every component is a file name
  (non-empty, without \<^verbatim>\<open>/\<close>, and neither \<^verbatim>\<open>.\<close> nor \<^verbatim>\<open>..\<close>).
\<close>

definition valid_name :: "string \<Rightarrow> bool" where
  "valid_name c = (c \<noteq> [] \<and> c \<noteq> ''.'' \<and> c \<noteq> ''..'' \<and> CHR ''/'' \<notin> set c)"

definition wf_fs :: "fs \<Rightarrow> bool" where
  "wf_fs fs =
     (distinct (map fst fs) \<and> lookup fs [] = Some Dir \<and>
      list_all (\<lambda>e. list_all valid_name (fst e) \<and>
                     (fst e \<noteq> [] \<longrightarrow> lookup fs (butlast (fst e)) = Some Dir)) fs)"

text \<open>
  The exceptions that leave a function of the program. \<open>APIError\<close> is any exception of
  the client library (authentication, rate limit, network, a reply that does not parse),
  with its description; \<open>IndexError\<close> and \<open>AttributeError\<close> come from reading
  \<^verbatim>\<open>response.content[0].text\<close>.
\<close>

datatype error =
    FileNotFoundError string
  | IsADirectoryError
  | NotADirectoryError
  | FileExistsError
  | UnicodeDecodeError
  | ValueError
  | TypeError
  | IndexError
  | AttributeError string
  | APIError string

text \<open>\<^verbatim>\<open>str(e)\<close> for the exceptions \<^verbatim>\<open>call_claude\<close> can catch.\<close>

fun error_str :: "error \<Rightarrow> string" where
  "error_str (APIError d) = d"
| "error_str IndexError = ''list index out of range''"
| "error_str (AttributeError cls) = [CHR 0x27] @ cls @ [CHR 0x27] @ '' object has no attribute '' @ [CHR 0x27] @ ''text'' @ [CHR 0x27]"
| "error_str (FileNotFoundError m) = m"
| "error_str other = []"

text \<open>\<^verbatim>\<open>Path.rglob("*")\<close>: every entry strictly below the root, directories included.\<close>

definition rglob :: "fs \<Rightarrow> path \<Rightarrow> path list" where
  "rglob fs folder = filter (\<lambda>p. strict_prefix folder p) (map fst fs)"

definition iter_code_files :: "fs \<Rightarrow> path \<Rightarrow> path list" where
  "iter_code_files fs folder =
     filter (\<lambda>p. is_file fs p \<and> lower (path_suffix p) \<in> set SUPPORTED_EXTS) (rglob fs folder)"

text \<open>\<^verbatim>\<open>Path.read_text(encoding="utf-8")\<close>.\<close>

definition os_not_found :: "path \<Rightarrow> error" where
  "os_not_found p =
     FileNotFoundError (''[Errno 2] No such file or directory: '' @ [CHR 0x27] @ path_str p @ [CHR 0x27])"

definition read_text :: "fs \<Rightarrow> path \<Rightarrow> error + string" where
  "read_text fs p =
     (case lookup fs p of
        None \<Rightarrow> Inl (os_not_found p)
      | Some Dir \<Rightarrow> Inl IsADirectoryError
      | Some (File NotUtf8) \<Rightarrow> Inl UnicodeDecodeError
      | Some (File (Utf8 t)) \<Rightarrow> Inr t)"

definition read_file :: "fs \<Rightarrow> string \<Rightarrow> error + string" where
  "read_file fs path =
     (let p = Path path in
      if \<not> path_exists fs p then Inl (FileNotFoundError (''File not found: '' @ path))
      else read_text fs p)"

text \<open>
  \<^verbatim>\<open>Path.mkdir(parents=True, exist_ok=True)\<close>: walking down from the top, a missing
  directory is created, a directory that is there is kept, and a regular file in the
  way raises.
\<close>

fun mkdir_parents :: "fs \<Rightarrow> path \<Rightarrow> path \<Rightarrow> error + fs" where
  "mkdir_parents fs pre [] = Inr fs"
| "mkdir_parents fs pre (c # cs) =
     (case lookup fs (pre @ [c]) of
        Some Dir \<Rightarrow> mkdir_parents fs (pre @ [c]) cs
      | Some (File t) \<Rightarrow> Inl (if cs = [] then FileExistsError else NotADirectoryError)
      | None \<Rightarrow> mkdir_parents (fs @ [(pre @ [c], Dir)]) (pre @ [c]) cs)"

definition mkdir :: "fs \<Rightarrow> path \<Rightarrow> error + fs" where
  "mkdir fs p = mkdir_parents fs [] p"

text \<open>\<^verbatim>\<open>Path.parent\<close>; the parent of the empty path is the empty path.\<close>

definition parent :: "path \<Rightarrow> path" where
  "parent p = butlast p"

text \<open>\<^verbatim>\<open>Path.write_text(text, encoding="utf-8")\<close>: creates the file or replaces its content.\<close>

definition write_text :: "fs \<Rightarrow> path \<Rightarrow> string \<Rightarrow> error + fs" where
  "write_text fs p t =
     (if lookup fs p = Some Dir then Inl IsADirectoryError
      else case lookup fs (parent p) of
             None \<Rightarrow> Inl (os_not_found p)
           | Some (File c) \<Rightarrow> Inl NotADirectoryError
           | Some Dir \<Rightarrow> Inr (AList.update p (File (Utf8 t)) fs))"

text \<open>\<^verbatim>\<open>Path.with_name\<close> raises on a path with an empty name; \<^verbatim>\<open>Path.relative_to\<close>
  raises when the path is not below the other.\<close>

definition with_name :: "path \<Rightarrow> string \<Rightarrow> error + path" where
  "with_name p name = (if path_name p = [] then Inl ValueError else Inr (butlast p @ [name]))"

definition relative_to :: "path \<Rightarrow> path \<Rightarrow> error + path" where
  "relative_to p other = (if prefix other p then Inr (drop (length other) p) else Inl ValueError)"

section \<open>The completion call\<close>

text \<open>
  The completion service is outside the program: a function from the number of earlier
  calls and the request to what \<^verbatim>\<open>client.messages.create\<close> does, which is to raise
  an exception with a description or to return a reply. A reply is a list of content
  blocks; a block that is not text has no \<^verbatim>\<open>text\<close> attribute and carries its class
  name. The temperature is a number that the program only passes on.
\<close>

record request =
  req_model :: string
  req_max_tokens :: int
  req_temperature :: real
  req_messages :: "(string \<times> string) list"

datatype block = TextBlock string | OtherBlock string

datatype service_outcome = Failure string | Response "block list"

type_synonym service = "nat \<Rightarrow> request \<Rightarrow> service_outcome"

text \<open>
  The world the program acts on: the file system, the requests sent so far, what was
  printed (one entry for each call of \<^verbatim>\<open>print\<close>), and what \<^verbatim>\<open>Path.resolve\<close>
  prints for a path, which depends on where the working directory is.
\<close>

record world =
  files :: fs
  calls :: "request list"
  stdout :: "string list"
  resolved :: "path \<Rightarrow> string"

datatype 'a outcome = Done 'a world | Raised error world

definition print :: "string \<Rightarrow> world \<Rightarrow> world" where
  "print s w = w\<lparr>stdout := stdout w @ [s]\<rparr>"

definition MODEL_NAME :: string where
  "MODEL_NAME = ''claude-3-haiku-20240307''"

definition messages_create :: "service \<Rightarrow> nat \<Rightarrow> request \<Rightarrow> error + block list" where
  "messages_create client n req =
     (case client n req of Failure d \<Rightarrow> Inl (APIError d) | Response content \<Rightarrow> Inr content)"

definition first_item :: "block list \<Rightarrow> error + block" where
  "first_item content = (case content of [] \<Rightarrow> Inl IndexError | b # bs \<Rightarrow> Inr b)"

definition block_text :: "block \<Rightarrow> error + string" where
  "block_text b = (case b of TextBlock t \<Rightarrow> Inr t | OtherBlock cls \<Rightarrow> Inl (AttributeError cls))"

text \<open>\<^verbatim>\<open>try: body  except Exception as e: handler(e)\<close>; all modelled exceptions are
  of class \<^verbatim>\<open>Exception\<close>.\<close>

definition try_except :: "error + 'a \<Rightarrow> (error \<Rightarrow> error + 'a) \<Rightarrow> error + 'a" where
  "try_except body handler = (case body of Inl e \<Rightarrow> handler e | Inr v \<Rightarrow> Inr v)"

definition call_claude ::
  "service \<Rightarrow> (string \<times> string) list \<Rightarrow> int \<Rightarrow> real \<Rightarrow> world \<Rightarrow> (error + string) \<times> world" where
  "call_claude client messages max_tokens temperature w =
     (let req = \<lparr>req_model = MODEL_NAME, req_max_tokens = max_tokens,
                 req_temperature = temperature, req_messages = messages\<rparr>
      in (try_except
            (case messages_create client (length (calls w)) req of
               Inl e \<Rightarrow> Inl e
             | Inr content \<Rightarrow>
                 (case first_item content of Inl e \<Rightarrow> Inl e | Inr b \<Rightarrow> block_text b))
            (\<lambda>e. Inr (''[API ERROR] '' @ error_str e)),
          w\<lparr>calls := calls w @ [req]\<rparr>))"

text \<open>The default values of the parameters of \<^verbatim>\<open>call_claude\<close>.\<close>

definition default_max_tokens :: int where
  "default_max_tokens = 4096"

definition default_temperature :: real where
  "default_temperature = 1 / 10"

section \<open>Prompt builders\<close>

definition lang_header_fix :: "string \<Rightarrow> string" where
  "lang_header_fix lang =
     (if lang = ''python'' then
        ''You are a senior Python engineer.\<newline>'' @
        ''Fix all bugs, inefficiencies, missing checks, and anti-patterns.\<newline>'' @
        ''Preserve EXACT external behavior and public API.\<newline>\<newline>''
      else if lang = ''cpp'' then
        ''You are a senior C++17 engineer.\<newline>'' @
        ''Fix all bugs, undefined behavior, memory issues, and anti-patterns.\<newline>'' @
        ''Prefer RAII, smart pointers, const-correctness, and modern STL.\<newline>'' @
        ''Preserve observable behavior and public interface.\<newline>\<newline>''
      else if lang = ''java'' then
        ''You are a senior Java engineer.\<newline>'' @
        ''Fix all bugs and anti-patterns using modern Java best practices.\<newline>'' @
        ''Preserve behavior and public API.\<newline>\<newline>''
      else if lang = ''kotlin'' then
        ''You are a senior Kotlin/Android engineer.\<newline>'' @
        ''Fix all bugs and improve safety using idiomatic Kotlin.\<newline>'' @
        ''Preserve behavior and public API.\<newline>\<newline>''
      else if lang \<in> set [''javascript'', ''typescript''] then
        ''You are a senior '' @ lang @ '' engineer.\<newline>'' @
        ''Fix all bugs, race conditions, and performance issues.\<newline>'' @
        ''Use modern language features and best practices.\<newline>'' @
        ''Preserve the observable behavior.\<newline>\<newline>''
      else if lang \<in> set [''html'', ''css''] then
        ''You are a senior '' @ upper lang @ '' engineer.\<newline>'' @
        ''Clean up structure, fix obvious issues, and keep the same visual behavior.\<newline>\<newline>''
      else
        ''You are a senior software engineer.\<newline>'' @
        ''Fix all obvious bugs, inefficiencies, missing checks, and anti-patterns.\<newline>'' @
        ''Preserve the same external behavior and semantics.\<newline>\<newline>'')"

definition lang_header_refactor :: "string \<Rightarrow> string" where
  "lang_header_refactor lang =
     (if lang = ''python'' then
        ''You are a senior Python engineer.\<newline>'' @
        ''Refactor this file for readability, maintainability, structure, and comments.\<newline>'' @
        ''Maintain EXACT external behavior.\<newline>\<newline>''
      else if lang = ''cpp'' then
        ''You are a senior C++17 engineer.\<newline>'' @
        ''Refactor for clarity, RAII, const-correctness, and better structure.\<newline>'' @
        ''Keep the public API and semantics unchanged.\<newline>\<newline>''
      else if lang = ''java'' then
        ''You are a senior Java engineer.\<newline>'' @
        ''Refactor using clean OOP design, clear naming, and modern Java patterns.\<newline>'' @
        ''Maintain existing behavior and public API.\<newline>\<newline>''
      else if lang = ''kotlin'' then
        ''You are a senior Kotlin/Android engineer.\<newline>'' @
        ''Refactor to idiomatic Kotlin, improving null-safety and readability.\<newline>'' @
        ''Preserve behavior and signatures.\<newline>\<newline>''
      else if lang \<in> set [''javascript'', ''typescript''] then
        ''You are a senior '' @ lang @ '' engineer.\<newline>'' @
        ''Refactor for readability, modularity, and maintainability.\<newline>'' @
        ''Use modern language features. Preserve behavior.\<newline>\<newline>''
      else if lang \<in> set [''html'', ''css''] then
        ''You are a senior '' @ upper lang @ '' engineer.\<newline>'' @
        ''Refactor for cleaner structure, semantics, and maintainability.\<newline>'' @
        ''Keep the same visual behavior.\<newline>\<newline>''
      else
        ''You are a senior software engineer.\<newline>'' @
        ''Refactor this file for readability, maintainability, structure, and comments.\<newline>'' @
        ''Maintain the same external behavior.\<newline>\<newline>'')"

definition rewrite_base :: string where
  "rewrite_base =
     ''You are a principal-level software architect.\<newline>'' @
     ''Completely REWRITE this module with a modern, clean, modular architecture.\<newline>'' @
     ''You MAY:\<newline>'' @
     ''- change function and class names\<newline>'' @
     ''- split large functions into smaller ones\<newline>'' @
     ''- introduce classes or interfaces where appropriate\<newline>'' @
     ''- reorganize responsibilities (I/O vs core logic vs config)\<newline>'' @
     ''- move script-style code into a main() or classes\<newline>'' @
     ''- remove dead code and legacy hacks\<newline>'' @
     ''You MUST:\<newline>'' @
     ''- preserve the overall PURPOSE of the module\<newline>'' @
     ''- keep it usable in the same general context\<newline>'' @
     ''- write idiomatic, production-quality code for this language\<newline>'' @
     ''- add clear docstrings/comments where helpful\<newline>\<newline>''"

definition lang_header_rewrite :: "string \<Rightarrow> string" where
  "lang_header_rewrite lang =
     (let base = rewrite_base in
      if lang = ''python'' then
        base @ ''Language: Python. Use modern Python best practices (type hints, clear modules).\<newline>\<newline>''
      else if lang = ''cpp'' then
        base @ ''Language: C++17. Use RAII, smart pointers, STL, and avoid raw new/delete where possible.\<newline>\<newline>''
      else if lang = ''java'' then
        base @ ''Language: Java. Use clear packages, interfaces, and patterns.\<newline>\<newline>''
      else if lang = ''kotlin'' then
        base @ ''Language: Kotlin. Use idiomatic Kotlin with data classes, extension functions, and proper null-safety.\<newline>\<newline>''
      else if lang \<in> set [''javascript'', ''typescript''] then
        base @ ''Language: '' @ lang @ ''. Use modern modules, async/await, and clear separation of concerns.\<newline>\<newline>''
      else if lang \<in> set [''html'', ''css''] then
        base @ ''Language: '' @ upper lang @ ''. Use semantic structure and maintain visual intent.\<newline>\<newline>''
      else base @ ''Language: generic code/text.\<newline>\<newline>'')"

definition build_fix_prompt :: "fs \<Rightarrow> string \<Rightarrow> error + string" where
  "build_fix_prompt fs path =
     (let p = Path path; lang = detect_language p in
      case read_file fs path of
        Inl e \<Rightarrow> Inl e
      | Inr text \<Rightarrow>
          (let header = lang_header_fix lang in
           Inr (header @ ''File path: '' @ path @ ''\<newline>\<newline>'' @
                ''Current content:\<newline>'' @
                ''----------------\<newline>'' @
                text @ ''\<newline>'' @
                ''----------------\<newline>'')))"

definition build_refactor_prompt :: "fs \<Rightarrow> string \<Rightarrow> error + string" where
  "build_refactor_prompt fs path =
     (let p = Path path; lang = detect_language p in
      case read_file fs path of
        Inl e \<Rightarrow> Inl e
      | Inr text \<Rightarrow>
          (let header = lang_header_refactor lang in
           Inr (header @ ''File path: '' @ path @ ''\<newline>\<newline>'' @
                ''Current content:\<newline>'' @
                ''----------------\<newline>'' @
                text @ ''\<newline>'' @
                ''----------------\<newline>'')))"

text \<open>The last line of the rewrite prompt, and its sentence without the line end.\<close>

definition rewrite_directive_sentence :: string where
  "rewrite_directive_sentence = ''Now output ONLY the full rewritten file content.''"

definition rewrite_directive :: string where
  "rewrite_directive = rewrite_directive_sentence @ ''\<newline>''"

definition build_rewrite_prompt :: "fs \<Rightarrow> string \<Rightarrow> error + string" where
  "build_rewrite_prompt fs path =
     (let p = Path path; lang = detect_language p in
      case read_file fs path of
        Inl e \<Rightarrow> Inl e
      | Inr text \<Rightarrow>
          (let header = lang_header_rewrite lang in
           Inr (header @ ''Original file path: '' @ path @ ''\<newline>\<newline>'' @
                ''Original file content:\<newline>'' @
                ''----------------------\<newline>'' @
                text @ ''\<newline>'' @
                ''----------------------\<newline>'' @
                ''Now output ONLY the full rewritten file content.\<newline>'')))"

definition build_explain_prompt :: "fs \<Rightarrow> string \<Rightarrow> error + string" where
  "build_explain_prompt fs path =
     (case read_file fs path of
        Inl e \<Rightarrow> Inl e
      | Inr text \<Rightarrow>
          Inr (''Explain the following file in full detail:\<newline>'' @
               ''- overall purpose\<newline>'' @
               ''- key functions/classes\<newline>'' @
               ''- how data flows\<newline>'' @
               ''- important design decisions\<newline>'' @
               ''- potential pitfalls\<newline>\<newline>'' @
               ''Path: '' @ path @ ''\<newline>\<newline>'' @
               text))"

text \<open>
  The listing of the project-level prompts:
  \<^verbatim>\<open>"\n".join(str(p) for p in folder_path.rglob("*") if p.is_file())\<close>.
\<close>

definition listed_paths :: "fs \<Rightarrow> path \<Rightarrow> path list" where
  "listed_paths fs folder_path = filter (\<lambda>p. is_file fs p) (rglob fs folder_path)"

definition file_list :: "fs \<Rightarrow> path \<Rightarrow> string" where
  "file_list fs folder_path = join ''\<newline>'' (map path_str (listed_paths fs folder_path))"

definition build_folder_analysis_prompt :: "fs \<Rightarrow> string \<Rightarrow> string" where
  "build_folder_analysis_prompt fs folder =
     (let folder_path = Path folder in
      ''You are a principal-level software architect.\<newline>'' @
      ''Analyze the ENTIRE project located at:\<newline>'' @ path_str folder_path @ ''\<newline>\<newline>'' @
      ''Files included:\<newline>'' @
      file_list fs folder_path @ ''\<newline>\<newline>'' @
      ''For EVERY important code file, provide:\<newline>'' @
      ''- purpose summary\<newline>'' @
      ''- logic explanation\<newline>'' @
      ''- major bugs or risks\<newline>'' @
      ''- inefficiencies\<newline>'' @
      ''- weak architecture\<newline>'' @
      ''- security issues\<newline>'' @
      ''- dead code\<newline>'' @
      ''- concrete refactor recommendations\<newline>\<newline>'' @
      ''Then propose:\<newline>'' @
      ''- improved folder structure\<newline>'' @
      ''- improved module boundaries\<newline>'' @
      ''- improved architecture\<newline>'' @
      ''- cleanup and modernization plan\<newline>'')"

definition build_project_qa_prompt :: "fs \<Rightarrow> string \<Rightarrow> string \<Rightarrow> string" where
  "build_project_qa_prompt fs folder question =
     (let folder_path = Path folder in
      ''You are an expert senior engineer. Answer questions about this codebase.\<newline>\<newline>'' @
      ''Project root: '' @ path_str folder_path @ ''\<newline>\<newline>'' @
      ''Files:\<newline>'' @ file_list fs folder_path @ ''\<newline>\<newline>'' @
      ''User question:\<newline>'' @ question)"

definition build_diff_prompt :: "fs \<Rightarrow> string \<Rightarrow> string \<Rightarrow> error + string" where
  "build_diff_prompt fs file_a file_b =
     (case read_file fs file_a of
        Inl e \<Rightarrow> Inl e
      | Inr text_a \<Rightarrow>
          (case read_file fs file_b of
             Inl e \<Rightarrow> Inl e
           | Inr text_b \<Rightarrow>
               Inr (''You are an expert senior engineer. Compare the following two files.\<newline>'' @
                    ''Provide:\<newline>'' @
                    ''- a unified diff\<newline>'' @
                    ''- summary of functional changes\<newline>'' @
                    ''- improvements introduced\<newline>'' @
                    ''- potential regressions\<newline>'' @
                    ''- style / architecture changes\<newline>'' @
                    ''- recommendations for further improvements\<newline>\<newline>'' @
                    ''File A: '' @ file_a @ ''\<newline>'' @ text_a @ ''\<newline>\<newline>'' @
                    ''File B: '' @ file_b @ ''\<newline>'' @ text_b @ ''\<newline>\<newline>'' @
                    ''Now produce the full analysis.'')))"

section \<open>Arguments and execution modes\<close>

text \<open>
  The namespace that \<^verbatim>\<open>parse_args\<close> returns. An option that is not given is \<open>None\<close>;
  \<^verbatim>\<open>--file\<close>, \<^verbatim>\<open>--fix\<close> and \<^verbatim>\<open>--generate-file\<close> are the fields \<open>file_arg\<close>,
  \<open>fix_arg\<close> and \<open>generate_file_arg\<close>.
\<close>

record args =
  prompt :: "string option"
  file_arg :: "string option"
  explain :: "string option"
  fix_arg :: "string option"
  refactor :: "string option"
  analyze_folder :: "string option"
  project_qa :: "string option"
  question :: "string option"
  generate_file_arg :: "string option"
  diff :: "(string \<times> string) option"
  fix_folder :: "string option"
  refactor_folder :: "string option"
  rewrite_folder :: "string option"
  out :: "string option"
  max_tokens :: int
  temperature :: real

text \<open>What the parser returns when no argument is given.\<close>

definition parsed_defaults :: args where
  "parsed_defaults =
     \<lparr>prompt = None, file_arg = None, explain = None, fix_arg = None, refactor = None,
      analyze_folder = None, project_qa = None, question = None, generate_file_arg = None,
      diff = None, fix_folder = None, refactor_folder = None, rewrite_folder = None,
      out = None, max_tokens = 4096, temperature = 1 / 10\<rparr>"

text \<open>Truth of an optional string in a condition: given and not empty.\<close>

definition truthy :: "string option \<Rightarrow> bool" where
  "truthy v = (case v of None \<Rightarrow> False | Some s \<Rightarrow> s \<noteq> [])"

text \<open>\<^verbatim>\<open>value or ""\<close>.\<close>

definition or_empty :: "string option \<Rightarrow> string" where
  "or_empty v = (case v of None \<Rightarrow> [] | Some s \<Rightarrow> s)"

text \<open>\<^verbatim>\<open>str(n)\<close> for a count.\<close>

definition digit_char :: "nat \<Rightarrow> char" where
  "digit_char d = char_of (48 + d)"

function str_nat :: "nat \<Rightarrow> string" where
  "str_nat n = (if n < 10 then [digit_char n] else str_nat (n div 10) @ [digit_char (n mod 10)])"
  by pat_completeness auto
termination
  by (relation "measure (\<lambda>n. n)") auto

definition write_output_if_needed :: "args \<Rightarrow> string \<Rightarrow> world \<Rightarrow> unit outcome" where
  "write_output_if_needed a content w =
     (if \<not> truthy (out a) then Done () (print content w)
      else
        (let out_path = Path (or_empty (out a)) in
         case mkdir (files w) (parent out_path) of
           Inl e \<Rightarrow> Raised e w
         | Inr fs1 \<Rightarrow>
             (case write_text fs1 out_path content of
                Inl e \<Rightarrow> Raised e (w\<lparr>files := fs1\<rparr>)
              | Inr fs2 \<Rightarrow>
                  Done () (print (''\<newline>[OK] Written to '' @ resolved w out_path @ ''\<newline>'')
                                 (w\<lparr>files := fs2\<rparr>)))))"

definition build_single_prompt :: "fs \<Rightarrow> args \<Rightarrow> error + string" where
  "build_single_prompt fs a =
     (if truthy (file_arg a) then
        (case read_file fs (or_empty (file_arg a)) of
           Inl e \<Rightarrow> Inl e
         | Inr text \<Rightarrow>
             (let user_prompt = or_empty (prompt a) in
              Inr (''You are an expert senior software engineer.\<newline>'' @
                   ''File: '' @ or_empty (file_arg a) @ ''\<newline>\<newline>'' @
                   text @ ''\<newline>\<newline>'' @
                   ''User request: '' @ user_prompt)))
      else Inr (or_empty (prompt a)))"

text \<open>
  Each mode builds its prompt, calls the service with one user message and hands the
  reply to the output sink. An exception of the prompt builder leaves the mode before
  any call.
\<close>

definition run_one_shot :: "service \<Rightarrow> args \<Rightarrow> world \<Rightarrow> unit outcome" where
  "run_one_shot client a w =
     (case build_single_prompt (files w) a of
        Inl e \<Rightarrow> Raised e w
      | Inr p \<Rightarrow>
          (case call_claude client [(''user'', p)] (max_tokens a) (temperature a) w of
             (Inl e, w1) \<Rightarrow> Raised e w1
           | (Inr reply, w1) \<Rightarrow> write_output_if_needed a reply w1))"

definition run_explain :: "service \<Rightarrow> args \<Rightarrow> world \<Rightarrow> unit outcome" where
  "run_explain client a w =
     (case explain a of
        None \<Rightarrow> Raised TypeError w
      | Some path \<Rightarrow>
          (case build_explain_prompt (files w) path of
             Inl e \<Rightarrow> Raised e w
           | Inr p \<Rightarrow>
               (case call_claude client [(''user'', p)] default_max_tokens default_temperature w of
                  (Inl e, w1) \<Rightarrow> Raised e w1
                | (Inr reply, w1) \<Rightarrow> write_output_if_needed a reply w1)))"

definition run_fix :: "service \<Rightarrow> args \<Rightarrow> world \<Rightarrow> unit outcome" where
  "run_fix client a w =
     (case fix_arg a of
        None \<Rightarrow> Raised TypeError w
      | Some path \<Rightarrow>
          (case build_fix_prompt (files w) path of
             Inl e \<Rightarrow> Raised e w
           | Inr p \<Rightarrow>
               (case call_claude client [(''user'', p)] default_max_tokens default_temperature w of
                  (Inl e, w1) \<Rightarrow> Raised e w1
                | (Inr reply, w1) \<Rightarrow> write_output_if_needed a reply w1)))"

definition run_refactor :: "service \<Rightarrow> args \<Rightarrow> world \<Rightarrow> unit outcome" where
  "run_refactor client a w =
     (case refactor a of
        None \<Rightarrow> Raised TypeError w
      | Some path \<Rightarrow>
          (case build_refactor_prompt (files w) path of
             Inl e \<Rightarrow> Raised e w
           | Inr p \<Rightarrow>
               (case call_claude client [(''user'', p)] default_max_tokens default_temperature w of
                  (Inl e, w1) \<Rightarrow> Raised e w1
                | (Inr reply, w1) \<Rightarrow> write_output_if_needed a reply w1)))"

definition run_analyze_folder :: "service \<Rightarrow> args \<Rightarrow> world \<Rightarrow> unit outcome" where
  "run_analyze_folder client a w =
     (case analyze_folder a of
        None \<Rightarrow> Raised TypeError w
      | Some folder \<Rightarrow>
          (let p = build_folder_analysis_prompt (files w) folder in
           case call_claude client [(''user'', p)] (max_tokens a) (temperature a) w of
             (Inl e, w1) \<Rightarrow> Raised e w1
           | (Inr reply, w1) \<Rightarrow> write_output_if_needed a reply w1))"

text \<open>An absent question is formatted into the prompt as the text \<^verbatim>\<open>None\<close>.\<close>

definition run_project_qa :: "service \<Rightarrow> args \<Rightarrow> world \<Rightarrow> unit outcome" where
  "run_project_qa client a w =
     (case project_qa a of
        None \<Rightarrow> Raised TypeError w
      | Some folder \<Rightarrow>
          (let p = build_project_qa_prompt (files w) folder
                     (case question a of None \<Rightarrow> ''None'' | Some q \<Rightarrow> q) in
           case call_claude client [(''user'', p)] default_max_tokens default_temperature w of
             (Inl e, w1) \<Rightarrow> Raised e w1
           | (Inr reply, w1) \<Rightarrow> write_output_if_needed a reply w1))"

definition run_generate_file :: "service \<Rightarrow> args \<Rightarrow> world \<Rightarrow> unit outcome" where
  "run_generate_file client a w =
     (let p = ''Generate the requested file. Output ONLY valid file content.\<newline>\<newline>'' @
              ''User specification:\<newline>'' @
              (case generate_file_arg a of None \<Rightarrow> ''None'' | Some spec \<Rightarrow> spec) in
      case call_claude client [(''user'', p)] default_max_tokens default_temperature w of
        (Inl e, w1) \<Rightarrow> Raised e w1
      | (Inr reply, w1) \<Rightarrow> write_output_if_needed a reply w1)"

definition run_diff :: "service \<Rightarrow> args \<Rightarrow> world \<Rightarrow> unit outcome" where
  "run_diff client a w =
     (case diff a of
        None \<Rightarrow> Raised TypeError w
      | Some (file_a, file_b) \<Rightarrow>
          (case build_diff_prompt (files w) file_a file_b of
             Inl e \<Rightarrow> Raised e w
           | Inr p \<Rightarrow>
               (case call_claude client [(''user'', p)] default_max_tokens default_temperature w of
                  (Inl e, w1) \<Rightarrow> Raised e w1
                | (Inr reply, w1) \<Rightarrow> write_output_if_needed a reply w1)))"

section \<open>Folder modes\<close>

text \<open>
  The loop of the three folder modes. Their bodies are the same statements but for the
  prompt builder and the verb of the progress line, which are parameters here. The loop
  runs over the files that \<^verbatim>\<open>iter_code_files\<close> yields; an exception leaves it with the
  world as it is at that point.
\<close>

fun folder_loop ::
  "(fs \<Rightarrow> string \<Rightarrow> error + string) \<Rightarrow> string \<Rightarrow> service \<Rightarrow> args \<Rightarrow> path \<Rightarrow> path \<Rightarrow>
   path list \<Rightarrow> nat \<Rightarrow> world \<Rightarrow> nat outcome" where
  "folder_loop build verb client a root_dir out_root [] count w = Done count w"
| "folder_loop build verb client a root_dir out_root (src # rest) count w =
     (case relative_to src root_dir of
        Inl e \<Rightarrow> Raised e w
      | Inr rel \<Rightarrow>
          (let dst = out_root @ rel in
           case mkdir (files w) (parent dst) of
             Inl e \<Rightarrow> Raised e w
           | Inr fs1 \<Rightarrow>
               (let w1 = w\<lparr>files := fs1\<rparr> in
                case build (files w1) (path_str src) of
                  Inl e \<Rightarrow> Raised e w1
                | Inr p \<Rightarrow>
                    (case call_claude client [(''user'', p)] (max_tokens a) (temperature a) w1 of
                       (Inl e, w2) \<Rightarrow> Raised e w2
                     | (Inr reply, w2) \<Rightarrow>
                         (case write_text (files w2) dst reply of
                            Inl e \<Rightarrow> Raised e w2
                          | Inr fs3 \<Rightarrow>
                              folder_loop build verb client a root_dir out_root rest (count + 1)
                                (print (''[OK] '' @ verb @ '' '' @ path_str src @ '' -> '' @ path_str dst)
                                       (w2\<lparr>files := fs3\<rparr>)))))))"

definition run_fix_folder :: "service \<Rightarrow> args \<Rightarrow> world \<Rightarrow> unit outcome" where
  "run_fix_folder client a w =
     (case fix_folder a of
        None \<Rightarrow> Raised TypeError w
      | Some folder \<Rightarrow>
          (let root_dir = Path folder in
           if \<not> path_exists (files w) root_dir \<or> \<not> is_dir (files w) root_dir then
             Done () (print (''[ERROR] Folder not found or not a directory: '' @ path_str root_dir) w)
           else
             (case with_name root_dir (path_name root_dir @ ''_fixed'') of
                Inl e \<Rightarrow> Raised e w
              | Inr out_root \<Rightarrow>
                  (let w0 = print (''[INFO] Fixing all supported code files in:\<newline>  '' @
                                   path_str root_dir @ ''\<newline>[INFO] Output folder:\<newline>  '' @
                                   path_str out_root @ ''\<newline>'') w in
                   case folder_loop build_fix_prompt ''Fixed'' client a root_dir out_root
                          (iter_code_files (files w0) root_dir) 0 w0 of
                     Raised e w' \<Rightarrow> Raised e w'
                   | Done count w' \<Rightarrow>
                       Done () (print (''\<newline>[DONE] Fixed '' @ str_nat count @
                                       '' file(s). Output project folder:\<newline>  '' @
                                       path_str out_root @ ''\<newline>'') w')))))"

definition run_refactor_folder :: "service \<Rightarrow> args \<Rightarrow> world \<Rightarrow> unit outcome" where
  "run_refactor_folder client a w =
     (case refactor_folder a of
        None \<Rightarrow> Raised TypeError w
      | Some folder \<Rightarrow>
          (let root_dir = Path folder in
           if \<not> path_exists (files w) root_dir \<or> \<not> is_dir (files w) root_dir then
             Done () (print (''[ERROR] Folder not found or not a directory: '' @ path_str root_dir) w)
           else
             (case with_name root_dir (path_name root_dir @ ''_refactored'') of
                Inl e \<Rightarrow> Raised e w
              | Inr out_root \<Rightarrow>
                  (let w0 = print (''[INFO] Refactoring all supported code files in:\<newline>  '' @
                                   path_str root_dir @ ''\<newline>[INFO] Output folder:\<newline>  '' @
                                   path_str out_root @ ''\<newline>'') w in
                   case folder_loop build_refactor_prompt ''Refactored'' client a root_dir out_root
                          (iter_code_files (files w0) root_dir) 0 w0 of
                     Raised e w' \<Rightarrow> Raised e w'
                   | Done count w' \<Rightarrow>
                       Done () (print (''\<newline>[DONE] Refactored '' @ str_nat count @
                                       '' file(s). Output project folder:\<newline>  '' @
                                       path_str out_root @ ''\<newline>'') w')))))"

definition run_rewrite_folder :: "service \<Rightarrow> args \<Rightarrow> world \<Rightarrow> unit outcome" where
  "run_rewrite_folder client a w =
     (case rewrite_folder a of
        None \<Rightarrow> Raised TypeError w
      | Some folder \<Rightarrow>
          (let root_dir = Path folder in
           if \<not> path_exists (files w) root_dir \<or> \<not> is_dir (files w) root_dir then
             Done () (print (''[ERROR] Folder not found or not a directory: '' @ path_str root_dir) w)
           else
             (case with_name root_dir (path_name root_dir @ ''_rewritten'') of
                Inl e \<Rightarrow> Raised e w
              | Inr out_root \<Rightarrow>
                  (let w0 = print ''[WARN] This is an aggressive mode. Resulting code may not be drop-in compatible.\<newline>''
                              (print (''[INFO] REWRITING all supported code files in:\<newline>  '' @
                                      path_str root_dir @ ''\<newline>[INFO] Output folder:\<newline>  '' @
                                      path_str out_root @ ''\<newline>'') w) in
                   case folder_loop build_rewrite_prompt ''Rewrote'' client a root_dir out_root
                          (iter_code_files (files w0) root_dir) 0 w0 of
                     Raised e w' \<Rightarrow> Raised e w'
                   | Done count w' \<Rightarrow>
                       Done () (print (''\<newline>[DONE] Rewrote '' @ str_nat count @
                                       '' file(s). Output project folder:\<newline>  '' @
                                       path_str out_root @ ''\<newline>'') w')))))"

section \<open>Dispatch\<close>

text \<open>
  \<^verbatim>\<open>main\<close> takes the first mode whose condition holds, in the order of its tests, and
  runs it.
\<close>

datatype mode =
    Explain | Fix | Refactor | AnalyzeFolder | ProjectQA | GenerateFile | Diff
  | FixFolder | RefactorFolder | RewriteFolder | OneShot

definition select_mode :: "args \<Rightarrow> mode" where
  "select_mode a =
     (if truthy (explain a) then Explain
      else if truthy (fix_arg a) then Fix
      else if truthy (refactor a) then Refactor
      else if truthy (analyze_folder a) then AnalyzeFolder
      else if truthy (project_qa a) \<and> truthy (question a) then ProjectQA
      else if truthy (generate_file_arg a) then GenerateFile
      else if diff a \<noteq> None then Diff
      else if truthy (fix_folder a) then FixFolder
      else if truthy (refactor_folder a) then RefactorFolder
      else if truthy (rewrite_folder a) then RewriteFolder
      else OneShot)"

fun run_mode :: "mode \<Rightarrow> service \<Rightarrow> args \<Rightarrow> world \<Rightarrow> unit outcome" where
  "run_mode Explain = run_explain"
| "run_mode Fix = run_fix"
| "run_mode Refactor = run_refactor"
| "run_mode AnalyzeFolder = run_analyze_folder"
| "run_mode ProjectQA = run_project_qa"
| "run_mode GenerateFile = run_generate_file"
| "run_mode Diff = run_diff"
| "run_mode FixFolder = run_fix_folder"
| "run_mode RefactorFolder = run_refactor_folder"
| "run_mode RewriteFolder = run_rewrite_folder"
| "run_mode OneShot = run_one_shot"

definition main :: "service \<Rightarrow> args \<Rightarrow> world \<Rightarrow> unit outcome" where
  "main client a w = run_mode (select_mode a) client a w"

section \<open>Conditions of the folder walk\<close>

text \<open>
  What the walk of a folder mode relies on: \<open>S\<close> is the set of files it is to process,
  all of them text files below the root, and the output root is a sibling of the root.
\<close>

definition walk_frame :: "fs \<Rightarrow> path \<Rightarrow> path \<Rightarrow> path set \<Rightarrow> bool" where
  "walk_frame fs0 root_dir out_root S =
     (wf_fs fs0 \<and> root_dir \<noteq> [] \<and> lookup fs0 root_dir = Some Dir \<and>
      length out_root = length root_dir \<and> butlast out_root = butlast root_dir \<and> out_root \<noteq> root_dir \<and>
      (\<forall>s\<in>S. strict_prefix root_dir s \<and> (\<exists>t. lookup fs0 s = Some (File (Utf8 t)))))"

text \<open>
  The state of the output tree while the files \<open>D\<close> have been processed: nothing outside
  the output root has changed, every directory below the output root lies on the way to
  the copy of a file of \<open>S\<close>, every file there is the copy of a processed file, and the
  copy of every processed file holds a reply that satisfies \<open>P\<close>.
\<close>

definition mirror_inv :: "fs \<Rightarrow> path \<Rightarrow> path \<Rightarrow> path set \<Rightarrow> path set \<Rightarrow> (string \<Rightarrow> bool) \<Rightarrow> fs \<Rightarrow> bool" where
  "mirror_inv fs0 root_dir out_root S D P fs =
     (distinct (map fst fs) \<and>
      (\<forall>q. \<not> prefix out_root q \<longrightarrow> lookup fs q = lookup fs0 q) \<and>
      (\<forall>q. prefix out_root q \<and> lookup fs q = Some Dir \<longrightarrow>
           (\<exists>s\<in>S. strict_prefix q (out_root @ drop (length root_dir) s))) \<and>
      (\<forall>q c. prefix out_root q \<and> lookup fs q = Some (File c) \<longrightarrow>
           (\<exists>s\<in>D. q = out_root @ drop (length root_dir) s)) \<and>
      (\<forall>s\<in>D. \<exists>t. lookup fs (out_root @ drop (length root_dir) s) = Some (File (Utf8 t)) \<and> P t))"

text \<open>
  For the three folder modes: the option that names the root, the suffix of the output
  folder and the verb of the summary line.
\<close>

fun folder_of :: "mode \<Rightarrow> args \<Rightarrow> string option" where
  "folder_of FixFolder a = fix_folder a"
| "folder_of RefactorFolder a = refactor_folder a"
| "folder_of RewriteFolder a = rewrite_folder a"
| "folder_of other a = None"

fun out_suffix :: "mode \<Rightarrow> string" where
  "out_suffix FixFolder = ''_fixed''"
| "out_suffix RefactorFolder = ''_refactored''"
| "out_suffix RewriteFolder = ''_rewritten''"
| "out_suffix other = []"

fun done_verb :: "mode \<Rightarrow> string" where
  "done_verb FixFolder = ''Fixed''"
| "done_verb RefactorFolder = ''Refactored''"
| "done_verb RewriteFolder = ''Rewrote''"
| "done_verb other = []"

text \<open>\<^verbatim>\<open>root.with_name(root.name + suffix)\<close> for a root with a name.\<close>

definition out_root_of :: "path \<Rightarrow> string \<Rightarrow> path" where
  "out_root_of root_dir sfx = butlast root_dir @ [path_name root_dir @ sfx]"

text \<open>A regular file whose bytes decode as UTF-8.\<close>

definition is_text_file :: "fs \<Rightarrow> path \<Rightarrow> bool" where
  "is_text_file fs p = (case lookup fs p of Some (File (Utf8 t)) \<Rightarrow> True | other \<Rightarrow> False)"

text \<open>
  A root on which a folder mode can do its work: the file system is well formed, the root
  is a directory with a name, the output root does not exist yet, and every supported
  file below the root is readable as text.
\<close>

definition batch_ready :: "fs \<Rightarrow> path \<Rightarrow> path \<Rightarrow> bool" where
  "batch_ready fs root_dir out_root =
     (wf_fs fs \<and> is_dir fs root_dir \<and> root_dir \<noteq> [] \<and> \<not> path_exists fs out_root \<and>
      list_all (is_text_file fs) (iter_code_files fs root_dir))"

text \<open>The exceptions that come from the completion call or from reading its reply.\<close>

definition is_service_error :: "error \<Rightarrow> bool" where
  "is_service_error e = (case e of APIError d \<Rightarrow> True | IndexError \<Rightarrow> True | AttributeError c \<Rightarrow> True | other \<Rightarrow> False)"

text \<open>The summary line that a folder mode prints last.\<close>

definition done_line :: "mode \<Rightarrow> nat \<Rightarrow> path \<Rightarrow> string" where
  "done_line m n out_root =
     ''\<newline>[DONE] '' @ done_verb m @ '' '' @ str_nat n @ '' file(s). Output project folder:\<newline>  '' @
     path_str out_root @ ''\<newline>''"

section \<open>Properties\<close>

subsection \<open>The language classifier\<close>

text \<open>
  Claim C4. The classifier is a total function of the path. When the lower-cased
  extension of the path is one of the supported extensions, the result is the tag that
  the table gives for it, one of the fifteen language tags; when it is not, and in
  particular when the path has no extension, the result is the fallback tag \<^verbatim>\<open>text\<close>.
\<close>

theorem detect_language_table:
  "(lower (path_suffix p) \<in> set SUPPORTED_EXTS \<longrightarrow>
      map_of spec_language_table (lower (path_suffix p)) = Some (detect_language p) \<and>
      detect_language p \<in> set spec_language_tags) \<and>
   (lower (path_suffix p) \<notin> set SUPPORTED_EXTS \<longrightarrow> detect_language p = ''text'') \<and>
   (path_suffix p = [] \<longrightarrow> detect_language p = ''text'')"
  unfolding detect_language_def SUPPORTED_EXTS_def spec_language_table_def spec_language_tags_def
  by (auto simp: Let_def lower_def)

theorem detect_language_table_witness:
  "lower (path_suffix [''src'', ''Main.PY'']) \<in> set SUPPORTED_EXTS \<and>
   detect_language [''src'', ''Main.PY''] = ''python'' \<and>
   lower (path_suffix [''notes.txt'']) \<notin> set SUPPORTED_EXTS \<and>
   detect_language [''notes.txt''] = ''text'' \<and>
   path_suffix [''Makefile''] = [] \<and> detect_language [''Makefile''] = ''text''"
proof -
  have a: "lower (path_suffix [''src'', ''Main.PY'']) = ''.py''"
    by (simp add: path_suffix_def path_name_def lower_def lower_char_def)
  have b: "lower (path_suffix [''notes.txt'']) = ''.txt''"
    by (simp add: path_suffix_def path_name_def lower_def lower_char_def)
  have c: "path_suffix [''Makefile''] = []"
    by (simp add: path_suffix_def path_name_def)
  have a': "lower (path_suffix [''src'', ''Main.PY'']) \<in> set SUPPORTED_EXTS"
    unfolding a by (simp add: SUPPORTED_EXTS_def)
  have b': "lower (path_suffix [''notes.txt'']) \<notin> set SUPPORTED_EXTS"
    unfolding b by (simp add: SUPPORTED_EXTS_def)
  from detect_language_table [of "[''src'', ''Main.PY'']"] a'
  have "detect_language [''src'', ''Main.PY''] = ''python''"
    unfolding a by (simp add: spec_language_table_def)
  moreover from detect_language_table [of "[''notes.txt'']"] b'
  have "detect_language [''notes.txt''] = ''text''" by blast
  moreover from detect_language_table [of "[''Makefile'']"] c
  have "detect_language [''Makefile''] = ''text''" by blast
  ultimately show ?thesis using a' b' c by blast
qed

subsection \<open>The completion client\<close>

text \<open>
  Claim C2. \<^verbatim>\<open>call_claude\<close> always returns a string and never an exception. When
  the service call raises, the string is the marker \<^verbatim>\<open>[API ERROR]\<close>, a space and the
  description of the failure; a reply without content or whose first block is not text
  is such a failure as well (reading the text raises inside the \<^verbatim>\<open>try\<close>). When the
  reply starts with a text block, the result is that text.
\<close>

theorem call_claude_fail_soft:
  "(\<exists>s. fst (call_claude client msgs mt temp w) = Inr s) \<and>
   (\<forall>d. client (length (calls w))
           \<lparr>req_model = MODEL_NAME, req_max_tokens = mt, req_temperature = temp,
            req_messages = msgs\<rparr> = Failure d \<longrightarrow>
        fst (call_claude client msgs mt temp w) = Inr (''[API ERROR] '' @ d)) \<and>
   (client (length (calls w))
           \<lparr>req_model = MODEL_NAME, req_max_tokens = mt, req_temperature = temp,
            req_messages = msgs\<rparr> = Response [] \<longrightarrow>
        fst (call_claude client msgs mt temp w) = Inr ''[API ERROR] list index out of range'') \<and>
   (\<forall>cls bs. client (length (calls w))
           \<lparr>req_model = MODEL_NAME, req_max_tokens = mt, req_temperature = temp,
            req_messages = msgs\<rparr> = Response (OtherBlock cls # bs) \<longrightarrow>
        fst (call_claude client msgs mt temp w) =
          Inr (''[API ERROR] '' @ error_str (AttributeError cls))) \<and>
   (\<forall>t bs. client (length (calls w))
           \<lparr>req_model = MODEL_NAME, req_max_tokens = mt, req_temperature = temp,
            req_messages = msgs\<rparr> = Response (TextBlock t # bs) \<longrightarrow>
        fst (call_claude client msgs mt temp w) = Inr t)"
  by (auto simp: call_claude_def Let_def try_except_def messages_create_def first_item_def
        block_text_def
      split: service_outcome.splits list.splits block.splits)

theorem call_claude_fail_soft_witness:
  "fst (call_claude (\<lambda>n r. if n = 0 then Failure ''rate limit'' else Response [TextBlock ''done''])
          [(''user'', ''hi'')] 4096 (1 / 10)
          \<lparr>files = [], calls = [], stdout = [], resolved = path_str\<rparr>) = Inr ''[API ERROR] rate limit'' \<and>
   fst (call_claude (\<lambda>n r. if n = 0 then Failure ''rate limit'' else Response [TextBlock ''done''])
          [(''user'', ''hi'')] 4096 (1 / 10)
          \<lparr>files = [], calls = [\<lparr>req_model = [], req_max_tokens = 1, req_temperature = 0,
                                req_messages = []\<rparr>],
           stdout = [], resolved = path_str\<rparr>) = Inr ''done''"
  using call_claude_fail_soft [of "\<lambda>n r. if n = 0 then Failure ''rate limit'' else Response [TextBlock ''done'']"
          "[(''user'', ''hi'')]" 4096 "1 / 10"
          "\<lparr>files = [], calls = [], stdout = [], resolved = path_str\<rparr>"]
        call_claude_fail_soft [of "\<lambda>n r. if n = 0 then Failure ''rate limit'' else Response [TextBlock ''done'']"
          "[(''user'', ''hi'')]" 4096 "1 / 10"
          "\<lparr>files = [], calls = [\<lparr>req_model = [], req_max_tokens = 1, req_temperature = 0,
                                 req_messages = []\<rparr>],
            stdout = [], resolved = path_str\<rparr>"]
  by simp

subsection \<open>The file accessor\<close>

text \<open>
  Claim C8, as the code has it. \<^verbatim>\<open>read_file\<close> raises \<^verbatim>\<open>FileNotFoundError\<close> exactly
  when the path does not exist, and then with the message of its own test, made before
  any read. When the path is a regular file whose bytes are valid UTF-8 it returns the
  whole text. A path that exists but is a directory, or a file that does not decode,
  makes the read raise another exception.
\<close>

theorem read_file_not_found_iff:
  "((\<exists>m. read_file fs path = Inl (FileNotFoundError m)) \<longleftrightarrow> \<not> path_exists fs (Path path)) \<and>
   (\<not> path_exists fs (Path path) \<longrightarrow>
      read_file fs path = Inl (FileNotFoundError (''File not found: '' @ path))) \<and>
   (\<forall>t. lookup fs (Path path) = Some (File (Utf8 t)) \<longrightarrow> read_file fs path = Inr t) \<and>
   (lookup fs (Path path) = Some Dir \<longrightarrow> read_file fs path = Inl IsADirectoryError) \<and>
   (lookup fs (Path path) = Some (File NotUtf8) \<longrightarrow> read_file fs path = Inl UnicodeDecodeError)"
  by (auto simp: read_file_def read_text_def path_exists_def Let_def
      split: option.splits node.splits contents.splits)

theorem read_file_not_found_iff_witness:
  "read_file [([], Dir), ([''a.txt''], File (Utf8 ''hi''))] ''a.txt'' = Inr ''hi'' \<and>
   read_file [([], Dir), ([''a.txt''], File (Utf8 ''hi''))] ''b.txt'' =
     Inl (FileNotFoundError ''File not found: b.txt'')"
  using read_file_not_found_iff [of "[([], Dir), ([''a.txt''], File (Utf8 ''hi''))]" "''a.txt''"]
        read_file_not_found_iff [of "[([], Dir), ([''a.txt''], File (Utf8 ''hi''))]" "''b.txt''"]
  by (simp add: Path_def lookup_def path_exists_def)

text \<open>
  The claim as stated fails where the path exists and is a directory: no contents
  are returned.
\<close>

theorem read_file_directory_counterexample:
  "path_exists [([], Dir), ([''d''], Dir)] (Path ''d'') \<and>
   read_file [([], Dir), ([''d''], Dir)] ''d'' = Inl IsADirectoryError"
  by (simp add: Path_def lookup_def path_exists_def read_file_def read_text_def)

subsection \<open>Dispatch\<close>

text \<open>
  Claim C10. When \<^verbatim>\<open>--question\<close> is not given, the project question mode is not
  selected, whatever \<^verbatim>\<open>--project-qa\<close> holds: the mode selected is the one selected
  without \<^verbatim>\<open>--project-qa\<close>, and when no other mode option is given it is the one-shot
  mode, which is what \<^verbatim>\<open>main\<close> then runs.
\<close>

theorem project_qa_needs_question:
  "question a = None \<Longrightarrow>
   select_mode a \<noteq> ProjectQA \<and>
   select_mode a = select_mode (a\<lparr>project_qa := None\<rparr>) \<and>
   (explain a = None \<and> fix_arg a = None \<and> refactor a = None \<and> analyze_folder a = None \<and>
    generate_file_arg a = None \<and> diff a = None \<and> fix_folder a = None \<and>
    refactor_folder a = None \<and> rewrite_folder a = None \<longrightarrow>
      select_mode a = OneShot \<and> main client a w = run_one_shot client a w)"
  by (simp add: select_mode_def main_def truthy_def)

theorem project_qa_needs_question_witness:
  "question (parsed_defaults\<lparr>project_qa := Some ''proj''\<rparr>) = None \<and>
   select_mode (parsed_defaults\<lparr>project_qa := Some ''proj''\<rparr>) = OneShot \<and>
   main (\<lambda>n r. Response [TextBlock ''ok'']) (parsed_defaults\<lparr>project_qa := Some ''proj''\<rparr>)
        \<lparr>files = [([], Dir)], calls = [], stdout = [], resolved = path_str\<rparr> =
   run_one_shot (\<lambda>n r. Response [TextBlock ''ok'']) (parsed_defaults\<lparr>project_qa := Some ''proj''\<rparr>)
        \<lparr>files = [([], Dir)], calls = [], stdout = [], resolved = path_str\<rparr>"
  using project_qa_needs_question [of "parsed_defaults\<lparr>project_qa := Some ''proj''\<rparr>"
          "\<lambda>n r. Response [TextBlock ''ok'']"
          "\<lparr>files = [([], Dir)], calls = [], stdout = [], resolved = path_str\<rparr>"]
  by (simp add: parsed_defaults_def select_mode_def truthy_def)

subsection \<open>Folder modes on a target that is not a directory\<close>

text \<open>
  Claim C9. When the path given to a folder mode does not exist or is not a directory,
  the mode prints the error line and returns: the result is the world it started from
  with that one line added to the output. The file system is the same, so no output
  folder or file was made, and no request was sent. No exception is raised.
\<close>

theorem invalid_root_no_work: "(fix_folder a = Some folder \<and> (\<not> path_exists (files w) (Path folder) \<or> \<not> is_dir (files w) (Path folder)) \<longrightarrow>
   run_fix_folder client a w = Done () (w\<lparr>stdout := stdout w @ [''[ERROR] Folder not found or not a directory: '' @ path_str (Path folder)]\<rparr>)) \<and>
  (refactor_folder a = Some folder \<and> (\<not> path_exists (files w) (Path folder) \<or> \<not> is_dir (files w) (Path folder)) \<longrightarrow>
   run_refactor_folder client a w = Done () (w\<lparr>stdout := stdout w @ [''[ERROR] Folder not found or not a directory: '' @ path_str (Path folder)]\<rparr>)) \<and>
  (rewrite_folder a = Some folder \<and> (\<not> path_exists (files w) (Path folder) \<or> \<not> is_dir (files w) (Path folder)) \<longrightarrow>
   run_rewrite_folder client a w = Done () (w\<lparr>stdout := stdout w @ [''[ERROR] Folder not found or not a directory: '' @ path_str (Path folder)]\<rparr>))"
  by (auto simp: run_fix_folder_def run_refactor_folder_def run_rewrite_folder_def Let_def print_def)

theorem invalid_root_no_work_witness:
  "run_fix_folder (\<lambda>n r. Failure ''down'') (parsed_defaults\<lparr>fix_folder := Some ''missing''\<rparr>)
     \<lparr>files = [([], Dir), ([''a.py''], File (Utf8 ''x = 1''))], calls = [], stdout = [], resolved = path_str\<rparr> =
   Done () \<lparr>files = [([], Dir), ([''a.py''], File (Utf8 ''x = 1''))], calls = [],
            stdout = [''[ERROR] Folder not found or not a directory: missing''], resolved = path_str\<rparr> \<and>
   run_refactor_folder (\<lambda>n r. Failure ''down'') (parsed_defaults\<lparr>refactor_folder := Some ''missing''\<rparr>)
     \<lparr>files = [([], Dir), ([''a.py''], File (Utf8 ''x = 1''))], calls = [], stdout = [], resolved = path_str\<rparr> =
   Done () \<lparr>files = [([], Dir), ([''a.py''], File (Utf8 ''x = 1''))], calls = [],
            stdout = [''[ERROR] Folder not found or not a directory: missing''], resolved = path_str\<rparr> \<and>
   run_rewrite_folder (\<lambda>n r. Failure ''down'') (parsed_defaults\<lparr>rewrite_folder := Some ''a.py''\<rparr>)
     \<lparr>files = [([], Dir), ([''a.py''], File (Utf8 ''x = 1''))], calls = [], stdout = [], resolved = path_str\<rparr> =
   Done () \<lparr>files = [([], Dir), ([''a.py''], File (Utf8 ''x = 1''))], calls = [],
            stdout = [''[ERROR] Folder not found or not a directory: a.py''], resolved = path_str\<rparr>"
proof -
  have m: "Path ''missing'' = [''missing'']" and f: "Path ''a.py'' = [''a.py'']" by (simp_all add: Path_def)
  have e1: "\<not> path_exists [([], Dir), ([''a.py''], File (Utf8 ''x = 1''))] (Path ''missing'')"
    unfolding m by (simp add: path_exists_def lookup_def)
  have e2: "\<not> is_dir [([], Dir), ([''a.py''], File (Utf8 ''x = 1''))] (Path ''a.py'')"
    unfolding f by (simp add: is_dir_def lookup_def)
  show ?thesis
    using invalid_root_no_work [of "parsed_defaults\<lparr>fix_folder := Some ''missing''\<rparr>" "''missing''"
                 "\<lparr>files = [([], Dir), ([''a.py''], File (Utf8 ''x = 1''))], calls = [], stdout = [], resolved = path_str\<rparr>"
                 "\<lambda>n r. Failure ''down''"]
          invalid_root_no_work [of "parsed_defaults\<lparr>refactor_folder := Some ''missing''\<rparr>" "''missing''"
                 "\<lparr>files = [([], Dir), ([''a.py''], File (Utf8 ''x = 1''))], calls = [], stdout = [], resolved = path_str\<rparr>"
                 "\<lambda>n r. Failure ''down''"]
          invalid_root_no_work [of "parsed_defaults\<lparr>rewrite_folder := Some ''a.py''\<rparr>" "''a.py''"
                 "\<lparr>files = [([], Dir), ([''a.py''], File (Utf8 ''x = 1''))], calls = [], stdout = [], resolved = path_str\<rparr>"
                 "\<lambda>n r. Failure ''down''"]
          e1 e2
    by (simp add: parsed_defaults_def m f path_str_def)
qed

subsection \<open>Sampling options\<close>

text \<open>
  Claim C5 does not hold of the code. The modes explain, fix, refactor, project
  question, generate and diff call \<^verbatim>\<open>call_claude\<close> without the two options, so the
  request carries the defaults of the parameters: the result of these modes does not
  depend on \<^verbatim>\<open>--max-tokens\<close> and \<^verbatim>\<open>--temperature\<close>, and explaining a file with
  \<^verbatim>\<open>--max-tokens 100 --temperature 0.9\<close> sends 4096 and 0.1. The one-shot mode, the
  folder analysis and the three folder modes pass the options on.
\<close>

theorem sampling_options_ignored:
  "run_explain client (a\<lparr>max_tokens := m, temperature := t\<rparr>) w = run_explain client a w \<and>
   run_fix client (a\<lparr>max_tokens := m, temperature := t\<rparr>) w = run_fix client a w \<and>
   run_refactor client (a\<lparr>max_tokens := m, temperature := t\<rparr>) w = run_refactor client a w \<and>
   run_project_qa client (a\<lparr>max_tokens := m, temperature := t\<rparr>) w = run_project_qa client a w \<and>
   run_generate_file client (a\<lparr>max_tokens := m, temperature := t\<rparr>) w = run_generate_file client a w \<and>
   run_diff client (a\<lparr>max_tokens := m, temperature := t\<rparr>) w = run_diff client a w \<and>
   (case main (\<lambda>n r. Response [TextBlock ''ok''])
          (parsed_defaults\<lparr>explain := Some ''a.py'', max_tokens := 100, temperature := 9 / 10\<rparr>)
          \<lparr>files = [([], Dir), ([''a.py''], File (Utf8 ''x = 1''))], calls = [], stdout = [],
           resolved = path_str\<rparr> of
      Done u w' \<Rightarrow> map (\<lambda>r. (req_max_tokens r, req_temperature r)) (calls w') = [(4096, 1 / 10)]
    | Raised e w' \<Rightarrow> False)"
proof -
  have wo: "write_output_if_needed (a\<lparr>max_tokens := m, temperature := t\<rparr>) = write_output_if_needed a"
    by (intro ext) (simp add: write_output_if_needed_def)
  have 1: "run_explain client (a\<lparr>max_tokens := m, temperature := t\<rparr>) w = run_explain client a w"
    unfolding run_explain_def wo by (simp cong: option.case_cong)
  have 2: "run_fix client (a\<lparr>max_tokens := m, temperature := t\<rparr>) w = run_fix client a w"
    unfolding run_fix_def wo by (simp cong: option.case_cong)
  have 3: "run_refactor client (a\<lparr>max_tokens := m, temperature := t\<rparr>) w = run_refactor client a w"
    unfolding run_refactor_def wo by (simp cong: option.case_cong)
  have 4: "run_project_qa client (a\<lparr>max_tokens := m, temperature := t\<rparr>) w = run_project_qa client a w"
    unfolding run_project_qa_def wo by (simp cong: option.case_cong)
  have 5: "run_generate_file client (a\<lparr>max_tokens := m, temperature := t\<rparr>) w = run_generate_file client a w"
    unfolding run_generate_file_def wo by (simp cong: option.case_cong)
  have 6: "run_diff client (a\<lparr>max_tokens := m, temperature := t\<rparr>) w = run_diff client a w"
    unfolding run_diff_def wo by (simp cong: option.case_cong)
  have 7: "(case main (\<lambda>n r. Response [TextBlock ''ok''])
          (parsed_defaults\<lparr>explain := Some ''a.py'', max_tokens := 100, temperature := 9 / 10\<rparr>)
          \<lparr>files = [([], Dir), ([''a.py''], File (Utf8 ''x = 1''))], calls = [], stdout = [],
           resolved = path_str\<rparr> of
      Done u w' \<Rightarrow> map (\<lambda>r. (req_max_tokens r, req_temperature r)) (calls w') = [(4096, 1 / 10)]
    | Raised e w' \<Rightarrow> False)"
    by (simp add: main_def select_mode_def parsed_defaults_def truthy_def run_explain_def
        build_explain_prompt_def read_file_def read_text_def Path_def path_exists_def lookup_def
        call_claude_def Let_def try_except_def messages_create_def first_item_def block_text_def
        write_output_if_needed_def print_def default_max_tokens_def default_temperature_def)
  from 1 2 3 4 5 6 7 show ?thesis by (simp only: simp_thms)
qed

subsection \<open>The listing of the project-level prompts\<close>

lemma split_on_append: "sep \<notin> set x \<Longrightarrow> split_on sep acc (x @ rest) = split_on sep (acc @ x) rest"
  by (induction x arbitrary: acc) auto

lemma split_on_join: "\<forall>y\<in>set (x # xs). sep \<notin> set y \<Longrightarrow> split_on sep acc (join [sep] (x # xs)) = (acc @ x) # xs"
proof (induction xs arbitrary: x acc)
  case Nil
  then show ?case using split_on_append [of sep x acc "[]"] by simp
next
  case (Cons y ys)
  have "split_on sep acc (join [sep] (x # y # ys)) = split_on sep (acc @ x) (sep # join [sep] (y # ys))"
    using Cons.prems split_on_append [of sep x acc "sep # join [sep] (y # ys)"] by simp
  also have "\<dots> = (acc @ x) # split_on sep [] (join [sep] (y # ys))" by simp
  also have "\<dots> = (acc @ x) # y # ys" using Cons.IH [of y "[]"] Cons.prems by simp
  finally show ?case .
qed

lemma is_file_listed: "is_file fs p \<Longrightarrow> p \<in> set (map fst fs)"
  by (cases "map_of fs p") (auto simp: is_file_def lookup_def dest: map_of_SomeD intro: rev_image_eqI)

lemma set_listed_paths: "set (listed_paths fs folder_path) = {p. strict_prefix folder_path p \<and> is_file fs p}"
  using is_file_listed by (auto simp: listed_paths_def rglob_def)

text \<open>
  Claim C7, as the code has it. The listing holds the regular files below the root, of
  whatever extension, and only them: the enumeration is filtered by \<^verbatim>\<open>is_file\<close>, so
  directories are left out. The paths are joined by line ends, so that, when no path
  contains a line end, the lines of the listing are the paths of the files in the order
  of enumeration. Both project-level prompts carry this listing after their heading.
\<close>

theorem folder_listing_regular_files: "set (listed_paths fs folder_path) = {p. strict_prefix folder_path p \<and> is_file fs p} \<and>
  (listed_paths fs folder_path \<noteq> [] \<and> (\<forall>p\<in>set (listed_paths fs folder_path). CHR ''\<newline>'' \<notin> set (path_str p)) \<longrightarrow>
     split_on (CHR ''\<newline>'') [] (file_list fs folder_path) = map path_str (listed_paths fs folder_path)) \<and>
  sublist (''Files included:\<newline>'' @ file_list fs (Path folder) @ ''\<newline>\<newline>'') (build_folder_analysis_prompt fs folder) \<and>
  sublist (''Files:\<newline>'' @ file_list fs (Path folder) @ ''\<newline>\<newline>'') (build_project_qa_prompt fs folder qn)"
proof -
  have lines: "split_on (CHR ''\<newline>'') [] (file_list fs folder_path) = map path_str (listed_paths fs folder_path)"
    if ne: "listed_paths fs folder_path \<noteq> []"
      and nl: "\<forall>p\<in>set (listed_paths fs folder_path). CHR ''\<newline>'' \<notin> set (path_str p)"
  proof -
    obtain q qs where qs: "listed_paths fs folder_path = q # qs" using ne by (cases "listed_paths fs folder_path") auto
    have "\<forall>y\<in>set (path_str q # map path_str qs). CHR ''\<newline>'' \<notin> set y" using nl qs by auto
    from split_on_join [OF this, of "[]"] show ?thesis by (simp add: file_list_def qs)
  qed
  have a: "sublist (''Files included:\<newline>'' @ file_list fs (Path folder) @ ''\<newline>\<newline>'') (build_folder_analysis_prompt fs folder)"
    unfolding build_folder_analysis_prompt_def Let_def sublist_def
    by (rule exI [of _ "''You are a principal-level software architect.\<newline>'' @ ''Analyze the ENTIRE project located at:\<newline>'' @ path_str (Path folder) @ ''\<newline>\<newline>''"], rule exI) simp
  have b: "sublist (''Files:\<newline>'' @ file_list fs (Path folder) @ ''\<newline>\<newline>'') (build_project_qa_prompt fs folder qn)"
    unfolding build_project_qa_prompt_def Let_def sublist_def
    by (rule exI [of _ "''You are an expert senior engineer. Answer questions about this codebase.\<newline>\<newline>'' @ ''Project root: '' @ path_str (Path folder) @ ''\<newline>\<newline>''"], rule exI) simp
  show ?thesis using set_listed_paths lines a b by simp
qed

theorem folder_listing_regular_files_witness: "set (listed_paths [([], Dir), ([''proj''], Dir), ([''proj'', ''a.py''], File (Utf8 ''x'')), ([''proj'', ''logo.png''], File NotUtf8), ([''other.py''], File (Utf8 ''y''))] [''proj'']) =
     {[''proj'', ''a.py''], [''proj'', ''logo.png'']} \<and>
   split_on (CHR ''\<newline>'') [] (file_list [([], Dir), ([''proj''], Dir), ([''proj'', ''a.py''], File (Utf8 ''x'')), ([''proj'', ''logo.png''], File NotUtf8), ([''other.py''], File (Utf8 ''y''))] [''proj'']) =
     [''proj/a.py'', ''proj/logo.png'']"
proof -
  let ?fs = "[([], Dir), ([''proj''], Dir), ([''proj'', ''a.py''], File (Utf8 ''x'')), ([''proj'', ''logo.png''], File NotUtf8), ([''other.py''], File (Utf8 ''y''))]"
  have l: "listed_paths ?fs [''proj''] = [[''proj'', ''a.py''], [''proj'', ''logo.png'']]"
    by (simp add: listed_paths_def rglob_def is_file_def lookup_def)
  have ne: "listed_paths ?fs [''proj''] \<noteq> []" unfolding l by simp
  have nl: "\<forall>p\<in>set (listed_paths ?fs [''proj'']). CHR ''\<newline>'' \<notin> set (path_str p)"
    unfolding l by (simp add: path_str_def)
  from folder_listing_regular_files [of ?fs "[''proj'']"] ne nl
  have "split_on (CHR ''\<newline>'') [] (file_list ?fs [''proj'']) = map path_str (listed_paths ?fs [''proj''])" by blast
  then show ?thesis unfolding l by (simp add: path_str_def)
qed

text \<open>
  The claim as stated fails on a root with a sub-directory: the directory is an entry
  below the root and the listing has no line for it.
\<close>

theorem folder_listing_omits_directories: "[''proj'', ''sub''] \<in> set (rglob [([], Dir), ([''proj''], Dir), ([''proj'', ''sub''], Dir), ([''proj'', ''sub'', ''a.bin''], File NotUtf8)] [''proj'']) \<and>
   split_on (CHR ''\<newline>'') [] (file_list [([], Dir), ([''proj''], Dir), ([''proj'', ''sub''], Dir), ([''proj'', ''sub'', ''a.bin''], File NotUtf8)] [''proj'']) = [''proj/sub/a.bin'']"
  by (simp add: rglob_def file_list_def listed_paths_def is_file_def lookup_def path_str_def)

subsection \<open>The directive of the rewrite prompt\<close>

lemma prefix_before_sep: "c \<notin> set d \<Longrightarrow> prefix d (xs @ c # ys) \<Longrightarrow> prefix d xs"
  by (auto simp: prefix_append prefix_Cons)

lemma sublist_split_at: "c \<notin> set d \<Longrightarrow> sublist d (a @ c # b) \<Longrightarrow> sublist d a \<or> sublist d b"
proof (induction a)
  case Nil
  then show ?case by (cases d) (auto simp: sublist_Cons_right prefix_Cons)
next
  case (Cons y a)
  from Cons.prems(2) have "prefix d ((y # a) @ c # b) \<or> sublist d (a @ c # b)"
    by (simp add: sublist_Cons_right)
  then show ?case
  proof
    assume "prefix d ((y # a) @ c # b)"
    with Cons.prems(1) have "prefix d (y # a)" by (rule prefix_before_sep)
    then have "sublist d (y # a)" by (rule prefix_imp_sublist)
    then show ?thesis ..
  next
    assume "sublist d (a @ c # b)"
    with Cons.prems(1) have "sublist d a \<or> sublist d b" by (rule Cons.IH)
    then show ?thesis by (auto simp: sublist_Cons_right)
  qed
qed

lemma sublist_skip_without_head: "x \<notin> set a \<Longrightarrow> sublist (x # d) (a @ b) \<Longrightarrow> sublist (x # d) b"
  by (induction a) (auto simp: sublist_Cons_right prefix_Cons)

lemma no_N_fix: "CHR ''N'' \<notin> set (lang_header_fix lang)"
  by (auto simp: lang_header_fix_def upper_def upper_char_def)

lemma no_N_refactor: "CHR ''N'' \<notin> set (lang_header_refactor lang)"
  by (auto simp: lang_header_refactor_def upper_def upper_char_def)

lemma sentence_shape: "rewrite_directive_sentence = CHR ''N'' # tl rewrite_directive_sentence" "CHR ''\<newline>'' \<notin> set rewrite_directive_sentence"
  by (simp_all add: rewrite_directive_sentence_def)


lemma sublist_in_context: "sublist d ys \<Longrightarrow> sublist d (ps @ ys @ ss)"
proof -
  assume "sublist d ys"
  then obtain a b where "ys = a @ d @ b" unfolding sublist_def by (elim exE)
  then have "ps @ ys @ ss = (ps @ a) @ d @ (b @ ss)" by simp
  then show ?thesis by (simp only: sublist_appendI)
qed

lemma framed_contains:
  assumes h: "CHR ''N'' \<notin> set header"
  shows "sublist rewrite_directive_sentence
           (header @ ''File path: '' @ path @ ''\<newline>\<newline>'' @ ''Current content:\<newline>'' @ ''----------------\<newline>'' @
            body @ ''\<newline>'' @ ''----------------\<newline>'') \<longleftrightarrow>
         sublist rewrite_directive_sentence path \<or> sublist rewrite_directive_sentence body"
    (is "sublist ?d ?whole \<longleftrightarrow> _")
proof
  assume "sublist ?d path \<or> sublist ?d body"
  then show "sublist ?d ?whole"
  proof
    assume "sublist ?d path"
    then have "sublist ?d ((header @ ''File path: '') @ path @ (''\<newline>\<newline>'' @ ''Current content:\<newline>'' @ ''----------------\<newline>'' @ body @ ''\<newline>'' @ ''----------------\<newline>''))"
      by (rule sublist_in_context)
    then show ?thesis by simp
  next
    assume "sublist ?d body"
    then have "sublist ?d ((header @ ''File path: '' @ path @ ''\<newline>\<newline>'' @ ''Current content:\<newline>'' @ ''----------------\<newline>'') @ body @ (''\<newline>'' @ ''----------------\<newline>''))"
      by (rule sublist_in_context)
    then show ?thesis by simp
  qed
next
  assume w: "sublist ?d ?whole"
  define d' where "d' = tl rewrite_directive_sentence"
  have d: "?d = CHR ''N'' # d'" unfolding d'_def by (rule sentence_shape(1))
  have nl: "CHR ''\<newline>'' \<notin> set ?d" by (rule sentence_shape(2))
  let ?tail = "''\<newline>Current content:\<newline>'' @ ''----------------\<newline>'' @ body @ ''\<newline>'' @ ''----------------\<newline>''"
  have "?whole = ((header @ ''File path: '') @ path) @ CHR ''\<newline>'' # ?tail" by simp
  with w have "sublist ?d (((header @ ''File path: '') @ path) @ CHR ''\<newline>'' # ?tail)" by simp
  with nl have "sublist ?d ((header @ ''File path: '') @ path) \<or> sublist ?d ?tail"
    by (rule sublist_split_at)
  then show "sublist ?d path \<or> sublist ?d body"
  proof
    assume a: "sublist ?d ((header @ ''File path: '') @ path)"
    have n: "CHR ''N'' \<notin> set (header @ ''File path: '')" using h by simp
    from a have "sublist (CHR ''N'' # d') ((header @ ''File path: '') @ path)" unfolding d .
    with n have "sublist (CHR ''N'' # d') path" by (rule sublist_skip_without_head)
    then show ?thesis unfolding d ..
  next
    assume t: "sublist ?d ?tail"
    have n: "CHR ''N'' \<notin> set (''\<newline>Current content:\<newline>'' @ ''----------------\<newline>'')" by simp
    from t have "sublist (CHR ''N'' # d') ((''\<newline>Current content:\<newline>'' @ ''----------------\<newline>'') @ (body @ CHR ''\<newline>'' # ''----------------\<newline>''))"
      unfolding d by simp
    with n have "sublist (CHR ''N'' # d') (body @ CHR ''\<newline>'' # ''----------------\<newline>'')"
      by (rule sublist_skip_without_head)
    then have "sublist ?d (body @ CHR ''\<newline>'' # ''----------------\<newline>'')" unfolding d .
    with nl have "sublist ?d body \<or> sublist ?d ''----------------\<newline>''"
      by (rule sublist_split_at)
    moreover have "\<not> sublist ?d ''----------------\<newline>''"
    proof
      assume "sublist ?d ''----------------\<newline>''"
      then have s: "sublist (CHR ''N'' # d') (''----------------\<newline>'' @ [])" unfolding d by simp
      have "CHR ''N'' \<notin> set ''----------------\<newline>''" by simp
      then have "sublist (CHR ''N'' # d') []" using s by (rule sublist_skip_without_head)
      then show False by simp
    qed
    ultimately show ?thesis by simp
  qed
qed

text \<open>
  Claim C6, as the code has it. Every rewrite prompt ends with the directive line.
  The fix and refactor templates do not add the directive: whenever the file can be read,
  their prompt contains the sentence of the directive exactly when the path or the text
  of the file contains it.
\<close>

theorem rewrite_directive_placement: "(\<forall>p. build_rewrite_prompt fs path = Inr p \<longrightarrow> suffix rewrite_directive p) \<and>
  (\<forall>body. read_file fs path = Inr body \<longrightarrow>
     (\<exists>p. build_rewrite_prompt fs path = Inr p) \<and>
     (\<exists>p. build_fix_prompt fs path = Inr p \<and>
          (sublist rewrite_directive_sentence p \<longleftrightarrow> sublist rewrite_directive_sentence path \<or> sublist rewrite_directive_sentence body)) \<and>
     (\<exists>p. build_refactor_prompt fs path = Inr p \<and>
          (sublist rewrite_directive_sentence p \<longleftrightarrow> sublist rewrite_directive_sentence path \<or> sublist rewrite_directive_sentence body)))"
proof -
  have a: "suffix rewrite_directive p" if "build_rewrite_prompt fs path = Inr p" for p
  proof -
    from that obtain body where "p = lang_header_rewrite (detect_language (Path path)) @ ''Original file path: '' @ path @ ''\<newline>\<newline>'' @
                ''Original file content:\<newline>'' @ ''----------------------\<newline>'' @ body @ ''\<newline>'' @
                ''----------------------\<newline>'' @ ''Now output ONLY the full rewritten file content.\<newline>''"
      by (auto simp: build_rewrite_prompt_def Let_def split: sum.splits)
    then have "p = (lang_header_rewrite (detect_language (Path path)) @ ''Original file path: '' @ path @ ''\<newline>\<newline>'' @
                ''Original file content:\<newline>'' @ ''----------------------\<newline>'' @ body @ ''\<newline>'' @
                ''----------------------\<newline>'') @ rewrite_directive"
      by (simp add: rewrite_directive_def rewrite_directive_sentence_def)
    then show ?thesis by (rule suffixI)
  qed
  have b: "(\<exists>p. build_rewrite_prompt fs path = Inr p) \<and>
     (\<exists>p. build_fix_prompt fs path = Inr p \<and>
          (sublist rewrite_directive_sentence p \<longleftrightarrow> sublist rewrite_directive_sentence path \<or> sublist rewrite_directive_sentence body)) \<and>
     (\<exists>p. build_refactor_prompt fs path = Inr p \<and>
          (sublist rewrite_directive_sentence p \<longleftrightarrow> sublist rewrite_directive_sentence path \<or> sublist rewrite_directive_sentence body))"
    if r: "read_file fs path = Inr body" for body
  proof -
    have nf: "CHR ''N'' \<notin> set (lang_header_fix (detect_language (Path path)))" by (rule no_N_fix)
    have nr: "CHR ''N'' \<notin> set (lang_header_refactor (detect_language (Path path)))" by (rule no_N_refactor)
    have 1: "\<exists>p. build_rewrite_prompt fs path = Inr p"
      using r by (simp add: build_rewrite_prompt_def Let_def)
    have 2: "\<exists>p. build_fix_prompt fs path = Inr p \<and>
          (sublist rewrite_directive_sentence p \<longleftrightarrow> sublist rewrite_directive_sentence path \<or> sublist rewrite_directive_sentence body)"
      using r framed_contains [OF nf, where path = path and body = body]
      by (simp add: build_fix_prompt_def Let_def)
    have 3: "\<exists>p. build_refactor_prompt fs path = Inr p \<and>
          (sublist rewrite_directive_sentence p \<longleftrightarrow> sublist rewrite_directive_sentence path \<or> sublist rewrite_directive_sentence body)"
      using r framed_contains [OF nr, where path = path and body = body]
      by (simp add: build_refactor_prompt_def Let_def)
    from 1 2 3 show ?thesis by simp
  qed
  show ?thesis using a b by simp
qed

theorem rewrite_directive_placement_witness: "(\<exists>p. build_rewrite_prompt [([], Dir), ([''a.py''], File (Utf8 ''x = 1''))] ''a.py'' = Inr p \<and> suffix rewrite_directive p) \<and>
   (\<exists>p. build_fix_prompt [([], Dir), ([''a.py''], File (Utf8 ''x = 1''))] ''a.py'' = Inr p \<and> \<not> sublist rewrite_directive_sentence p) \<and>
   (\<exists>p. build_refactor_prompt [([], Dir), ([''a.py''], File (Utf8 ''x = 1''))] ''a.py'' = Inr p \<and> \<not> sublist rewrite_directive_sentence p)"
proof -
  have r: "read_file [([], Dir), ([''a.py''], File (Utf8 ''x = 1''))] ''a.py'' = Inr ''x = 1''"
    by (simp add: read_file_def read_text_def Path_def path_exists_def lookup_def)
  have n1: "\<not> sublist rewrite_directive_sentence ''a.py''"
    by (simp add: rewrite_directive_sentence_def sublist_Cons_right)
  have n2: "\<not> sublist rewrite_directive_sentence ''x = 1''"
    by (simp add: rewrite_directive_sentence_def sublist_Cons_right)
  from rewrite_directive_placement [of "[([], Dir), ([''a.py''], File (Utf8 ''x = 1''))]" "''a.py''"] r n1 n2
  show ?thesis by blast
qed

text \<open>
  The claim as stated fails on a file whose text is the directive line: the fix prompt
  quotes the text, and so contains the directive.
\<close>

theorem fix_prompt_repeats_directive: "\<exists>p. build_fix_prompt [([], Dir), ([''notes.py''], File (Utf8 rewrite_directive))] ''notes.py'' = Inr p \<and> sublist rewrite_directive p"
proof -
  have r: "read_file [([], Dir), ([''notes.py''], File (Utf8 rewrite_directive))] ''notes.py'' = Inr rewrite_directive"
    by (simp add: read_file_def read_text_def Path_def path_exists_def lookup_def)
  have "sublist rewrite_directive ((lang_header_fix (detect_language (Path ''notes.py'')) @ ''File path: '' @ ''notes.py'' @ ''\<newline>\<newline>'' @
                ''Current content:\<newline>'' @ ''----------------\<newline>'') @ rewrite_directive @ (''\<newline>'' @ ''----------------\<newline>''))"
    by (rule sublist_appendI)
  then show ?thesis using r by (simp add: build_fix_prompt_def Let_def)
qed

subsection \<open>The folder walk\<close>

lemma lookup_append_dir:
  "lookup (fs @ [(d, Dir)]) q = (case lookup fs q of None \<Rightarrow> (if q = d then Some Dir else None) | Some v \<Rightarrow> Some v)"
  by (simp add: lookup_def map_add_def split: option.splits)

lemma lookup_update:
  "lookup (AList.update k v fs) q = (if q = k then Some v else lookup fs q)"
  by (simp add: lookup_def update_conv')

lemma lookup_Some_in_set: "lookup fs p = Some n \<Longrightarrow> (p, n) \<in> set fs"
  unfolding lookup_def by (rule map_of_SomeD)

lemma lookup_None_notin: "lookup fs p = None \<Longrightarrow> p \<notin> set (map fst fs)"
  by (simp add: lookup_def map_of_eq_None_iff)

lemma wf_parent:
  assumes "wf_fs fs" "lookup fs p = Some n" "p \<noteq> []"
  shows "lookup fs (butlast p) = Some Dir"
proof -
  from assms(2) have "(p, n) \<in> set fs" by (rule lookup_Some_in_set)
  with assms(1) have "fst (p, n) \<noteq> [] \<longrightarrow> lookup fs (butlast (fst (p, n))) = Some Dir"
    unfolding wf_fs_def list_all_iff by fast
  with assms(3) show ?thesis by simp
qed

lemma wf_names:
  assumes "wf_fs fs" "lookup fs p = Some n"
  shows "list_all valid_name p"
proof -
  from assms(2) have "(p, n) \<in> set fs" by (rule lookup_Some_in_set)
  with assms(1) have "list_all valid_name (fst (p, n))"
    unfolding wf_fs_def list_all_iff by fast
  then show ?thesis by simp
qed

lemma wf_ancestors:
  "wf_fs fs \<Longrightarrow> lookup fs p = Some n \<Longrightarrow> strict_prefix q p \<Longrightarrow> lookup fs q = Some Dir"
proof (induction p arbitrary: n rule: rev_induct)
  case Nil
  then show ?case by simp
next
  case (snoc x xs)
  from snoc.prems(1,2) have par: "lookup fs xs = Some Dir"
    using wf_parent [of fs "xs @ [x]" n] by simp
  from snoc.prems(3) have "prefix q xs" by (auto simp: strict_prefix_def prefix_snoc)
  then have "q = xs \<or> strict_prefix q xs" by (auto simp: strict_prefix_def)
  then show ?case
  proof
    assume "q = xs" with par show ?thesis by simp
  next
    assume "strict_prefix q xs"
    with snoc.IH [OF snoc.prems(1) par] show ?thesis .
  qed
qed

lemma Path_path_str:
  assumes "list_all valid_name p"
  shows "Path (path_str p) = p"
proof (cases p)
  case Nil
  then show ?thesis by (simp add: Path_def path_str_def)
next
  case (Cons x xs)
  from assms have v: "\<forall>y\<in>set (x # xs). CHR ''/'' \<notin> set y"
    unfolding Cons list_all_iff valid_name_def by simp
  have "split_on (CHR ''/'') [] (join ''/'' (x # xs)) = ([] @ x) # xs"
    using split_on_join [OF v, of "[]"] by simp
  moreover have "filter (\<lambda>c. c \<noteq> [] \<and> c \<noteq> ''.'') (x # xs) = x # xs"
    using assms unfolding Cons list_all_iff valid_name_def by (simp add: filter_id_conv)
  ultimately show ?thesis unfolding Cons by (simp add: Path_def path_str_def)
qed

lemma mkdir_parents_spec:
  "\<forall>r. r \<noteq> [] \<and> prefix r cs \<longrightarrow> (\<forall>c. lookup fs (pre @ r) \<noteq> Some (File c)) \<Longrightarrow>
   \<exists>fs'. mkdir_parents fs pre cs = Inr fs' \<and>
     (\<forall>q. lookup fs' q =
        (if lookup fs q = None \<and> (\<exists>r. r \<noteq> [] \<and> prefix r cs \<and> q = pre @ r) then Some Dir else lookup fs q)) \<and>
     (distinct (map fst fs) \<longrightarrow> distinct (map fst fs'))"
proof (induction cs arbitrary: fs pre)
  case Nil
  then show ?case by simp
next
  case (Cons c cs)
  have nf: "\<forall>t. lookup fs (pre @ [c]) \<noteq> Some (File t)"
    using Cons.prems [rule_format, of "[c]"] by simp
  have deeper: "\<forall>r. r \<noteq> [] \<and> prefix r cs \<longrightarrow> (\<forall>t. lookup fs ((pre @ [c]) @ r) \<noteq> Some (File t))"
  proof (intro allI impI)
    fix r t assume "r \<noteq> [] \<and> prefix r cs"
    then have "c # r \<noteq> [] \<and> prefix (c # r) (c # cs)" by simp
    from Cons.prems [rule_format, OF this, of t] show "lookup fs ((pre @ [c]) @ r) \<noteq> Some (File t)" by simp
  qed
  have seteq: "(\<exists>r. r \<noteq> [] \<and> prefix r (c # cs) \<and> q = pre @ r) \<longleftrightarrow>
                q = pre @ [c] \<or> (\<exists>r. r \<noteq> [] \<and> prefix r cs \<and> q = (pre @ [c]) @ r)" for q
  proof
    assume "\<exists>r. r \<noteq> [] \<and> prefix r (c # cs) \<and> q = pre @ r"
    then obtain r where r: "r \<noteq> []" "prefix r (c # cs)" "q = pre @ r" by (elim exE conjE)
    from r(1,2) obtain r' where r': "r = c # r'" "prefix r' cs" by (auto simp: prefix_Cons)
    show "q = pre @ [c] \<or> (\<exists>r. r \<noteq> [] \<and> prefix r cs \<and> q = (pre @ [c]) @ r)"
    proof (cases "r' = []")
      case True
      with r r' show ?thesis by simp
    next
      case False
      with r r' have "r' \<noteq> [] \<and> prefix r' cs \<and> q = (pre @ [c]) @ r'" by simp
      then show ?thesis by (intro disjI2 exI)
    qed
  next
    assume "q = pre @ [c] \<or> (\<exists>r. r \<noteq> [] \<and> prefix r cs \<and> q = (pre @ [c]) @ r)"
    then show "\<exists>r. r \<noteq> [] \<and> prefix r (c # cs) \<and> q = pre @ r"
    proof
      assume "q = pre @ [c]"
      then have "[c] \<noteq> [] \<and> prefix [c] (c # cs) \<and> q = pre @ [c]" by simp
      then show ?thesis by (rule exI)
    next
      assume "\<exists>r. r \<noteq> [] \<and> prefix r cs \<and> q = (pre @ [c]) @ r"
      then obtain r where "r \<noteq> []" "prefix r cs" "q = (pre @ [c]) @ r" by (elim exE conjE)
      then have "c # r \<noteq> [] \<and> prefix (c # r) (c # cs) \<and> q = pre @ (c # r)" by simp
      then show ?thesis by (rule exI)
    qed
  qed
  show ?case
  proof (cases "lookup fs (pre @ [c])")
    case None
    let ?fs2 = "fs @ [(pre @ [c], Dir)]"
    have l2: "lookup ?fs2 q = (case lookup fs q of None \<Rightarrow> (if q = pre @ [c] then Some Dir else None) | Some v \<Rightarrow> Some v)" for q
      by (rule lookup_append_dir)
    have deeper2: "\<forall>r. r \<noteq> [] \<and> prefix r cs \<longrightarrow> (\<forall>t. lookup ?fs2 ((pre @ [c]) @ r) \<noteq> Some (File t))"
      using deeper by (auto simp: l2 split: option.splits)
    from Cons.IH [OF deeper2] obtain fs' where fs':
      "mkdir_parents ?fs2 (pre @ [c]) cs = Inr fs'"
      "\<forall>q. lookup fs' q = (if lookup ?fs2 q = None \<and> (\<exists>r. r \<noteq> [] \<and> prefix r cs \<and> q = (pre @ [c]) @ r) then Some Dir else lookup ?fs2 q)"
      "distinct (map fst ?fs2) \<longrightarrow> distinct (map fst fs')"
      by (elim exE conjE)
    have m: "mkdir_parents fs pre (c # cs) = Inr fs'" using None fs'(1) by simp
    have look: "lookup fs' q = (if lookup fs q = None \<and> (\<exists>r. r \<noteq> [] \<and> prefix r (c # cs) \<and> q = pre @ r) then Some Dir else lookup fs q)" for q
      unfolding seteq using fs'(2) [rule_format, of q] by (auto simp: l2 split: option.splits)
    have "pre @ [c] \<notin> set (map fst fs)" using None by (rule lookup_None_notin)
    then have "distinct (map fst fs) \<longrightarrow> distinct (map fst ?fs2)" by simp
    with fs'(3) have d: "distinct (map fst fs) \<longrightarrow> distinct (map fst fs')" by simp
    from m look d show ?thesis by (intro exI conjI allI)
  next
    case (Some nd)
    with nf have dir: "lookup fs (pre @ [c]) = Some Dir" by (cases nd) auto
    from Cons.IH [OF deeper] obtain fs' where fs':
      "mkdir_parents fs (pre @ [c]) cs = Inr fs'"
      "\<forall>q. lookup fs' q = (if lookup fs q = None \<and> (\<exists>r. r \<noteq> [] \<and> prefix r cs \<and> q = (pre @ [c]) @ r) then Some Dir else lookup fs q)"
      "distinct (map fst fs) \<longrightarrow> distinct (map fst fs')"
      by (elim exE conjE)
    have m: "mkdir_parents fs pre (c # cs) = Inr fs'" using dir fs'(1) by simp
    have look: "lookup fs' q = (if lookup fs q = None \<and> (\<exists>r. r \<noteq> [] \<and> prefix r (c # cs) \<and> q = pre @ r) then Some Dir else lookup fs q)" for q
      unfolding seteq using fs'(2) [rule_format, of q] dir by auto
    from m look fs'(3) show ?thesis by (intro exI conjI allI)
  qed
qed

lemma under_root: "strict_prefix r s \<Longrightarrow> s = r @ drop (length r) s \<and> drop (length r) s \<noteq> []"
  unfolding strict_prefix_def prefix_def by auto

lemma sibling_not_prefix:
  assumes "length ot = length r" "ot \<noteq> r" "strict_prefix r s"
  shows "\<not> prefix ot s"
proof
  assume "prefix ot s"
  then obtain z where z: "s = ot @ z" unfolding prefix_def by (elim exE)
  from assms(3) have "s = r @ drop (length r) s" using under_root by fast
  with z have "ot @ z = r @ drop (length r) s" by simp
  with assms(1) have "ot = r" by simp
  with assms(2) show False by simp
qed

lemma strict_prefix_butlast: "strict_prefix r xs \<Longrightarrow> prefix r (butlast xs)"
proof -
  assume "strict_prefix r xs"
  then obtain z zs where "xs = r @ z # zs" by (rule strict_prefixE')
  then have "butlast xs = r @ butlast (z # zs)" by (simp add: butlast_append)
  then show ?thesis by (rule prefixI)
qed

lemma prefix_butlast_strict: "xs \<noteq> [] \<Longrightarrow> prefix r (butlast xs) \<Longrightarrow> strict_prefix r xs"
proof -
  assume ne: "xs \<noteq> []" and "prefix r (butlast xs)"
  then obtain z where z: "butlast xs = r @ z" unfolding prefix_def by (elim exE)
  from ne have "xs = butlast xs @ [last xs]" by simp
  with z have "xs = r @ (z @ [last xs])" by simp
  then have "xs = r @ hd (z @ [last xs]) # tl (z @ [last xs])" by simp
  then show ?thesis by (rule strict_prefixI')
qed

lemma above_out_is_dir:
  assumes fr: "walk_frame fs0 root_dir out_root S"
    and inv: "mirror_inv fs0 root_dir out_root S D P fs"
    and r: "strict_prefix r out_root"
  shows "lookup fs r = Some Dir"
proof -
  from r have "prefix r (butlast out_root)" by (rule strict_prefix_butlast)
  with fr have "prefix r (butlast root_dir)" by (simp add: walk_frame_def)
  with fr have sr: "strict_prefix r root_dir" using prefix_butlast_strict [of root_dir r] by (simp add: walk_frame_def)
  from fr have "wf_fs fs0" "lookup fs0 root_dir = Some Dir" by (simp_all add: walk_frame_def)
  with sr have a: "lookup fs0 r = Some Dir" using wf_ancestors by fast
  from r have "length r < length out_root" by (rule prefix_length_less)
  then have "\<not> prefix out_root r" using prefix_length_le [of out_root r] by auto
  with inv have "lookup fs r = lookup fs0 r" by (simp add: mirror_inv_def)
  with a show ?thesis by simp
qed

lemma no_file_above:
  assumes fr: "walk_frame fs0 root_dir out_root S"
    and inv: "mirror_inv fs0 root_dir out_root S D P fs"
    and DS: "D \<subseteq> S" and sS: "s \<in> S"
    and us: "strict_prefix us (drop (length root_dir) s)"
  shows "lookup fs (out_root @ us) \<noteq> Some (File c)"
proof
  assume f: "lookup fs (out_root @ us) = Some (File c)"
  have "prefix out_root (out_root @ us)" by simp
  with inv f obtain s' where s': "s' \<in> D" "out_root @ us = out_root @ drop (length root_dir) s'"
    unfolding mirror_inv_def by fast
  then have us': "us = drop (length root_dir) s'" by simp
  from s'(1) DS have "s' \<in> S" by fast
  with fr have p': "strict_prefix root_dir s'" and fl: "\<exists>t. lookup fs0 s' = Some (File (Utf8 t))"
    by (simp_all add: walk_frame_def)
  from sS fr have p: "strict_prefix root_dir s" and ex: "\<exists>t. lookup fs0 s = Some (File (Utf8 t))"
    by (simp_all add: walk_frame_def)
  from p' have e': "s' = root_dir @ us" using under_root [of root_dir s'] us' by simp
  from p have e: "s = root_dir @ drop (length root_dir) s" using under_root by fast
  from us obtain z zs where "drop (length root_dir) s = us @ z # zs" by (rule strict_prefixE')
  with e e' have "s = s' @ z # zs" by simp
  then have "strict_prefix s' s" by (rule strict_prefixI')
  moreover from fr have "wf_fs fs0" by (simp add: walk_frame_def)
  moreover from ex obtain t where "lookup fs0 s = Some (File (Utf8 t))" by (elim exE)
  ultimately have "lookup fs0 s' = Some Dir" using wf_ancestors by fast
  with fl show False by simp
qed

lemma step_mkdir:
  assumes fr: "walk_frame fs0 root_dir out_root S"
    and inv: "mirror_inv fs0 root_dir out_root S D P fs"
    and DS: "D \<subseteq> S" and sS: "s \<in> S"
  shows "\<exists>fs1. mkdir fs (parent (out_root @ drop (length root_dir) s)) = Inr fs1 \<and>
           mirror_inv fs0 root_dir out_root S D P fs1 \<and>
           lookup fs1 (parent (out_root @ drop (length root_dir) s)) = Some Dir \<and>
           lookup fs1 (out_root @ drop (length root_dir) s) = lookup fs (out_root @ drop (length root_dir) s)"
proof -
  define rel where "rel = drop (length root_dir) s"
  define pd where "pd = out_root @ butlast rel"
  from sS fr have sp: "strict_prefix root_dir s" by (simp add: walk_frame_def)
  then have rel: "rel \<noteq> []" unfolding rel_def using under_root by fast
  from fr have out_ne: "out_root \<noteq> []" by (auto simp: walk_frame_def)
  have par: "parent (out_root @ rel) = pd" unfolding parent_def pd_def using rel by (simp add: butlast_append)
  have cases_r: "strict_prefix r out_root \<or> (\<exists>us. r = out_root @ us \<and> strict_prefix us rel)" if "prefix r pd" for r
  proof -
    from that have "prefix r out_root \<or> (\<exists>us. r = out_root @ us \<and> prefix us (butlast rel))"
      unfolding pd_def by (simp add: prefix_append)
    then show ?thesis
    proof
      assume p: "prefix r out_root"
      show ?thesis
      proof (cases "r = out_root")
        case True
        have "strict_prefix [] rel" using rel by (cases rel) simp_all
        with True have "r = out_root @ [] \<and> strict_prefix [] rel" by simp
        then show ?thesis by (intro disjI2 exI)
      next
        case False
        with p have "strict_prefix r out_root" by (simp add: strict_prefix_def)
        then show ?thesis ..
      qed
    next
      assume "\<exists>us. r = out_root @ us \<and> prefix us (butlast rel)"
      then obtain us where us: "r = out_root @ us" "prefix us (butlast rel)" by (elim exE conjE)
      from rel us(2) have "strict_prefix us rel" by (rule prefix_butlast_strict)
      with us(1) have "r = out_root @ us \<and> strict_prefix us rel" by simp
      then show ?thesis by (intro disjI2 exI)
    qed
  qed
  have nofile: "lookup fs r \<noteq> Some (File c)" if "prefix r pd" for r c
  proof -
    from cases_r [OF that] show ?thesis
    proof
      assume "strict_prefix r out_root"
      with fr inv have "lookup fs r = Some Dir" by (rule above_out_is_dir)
      then show ?thesis by simp
    next
      assume "\<exists>us. r = out_root @ us \<and> strict_prefix us rel"
      then obtain us where us: "r = out_root @ us" "strict_prefix us rel" by (elim exE conjE)
      from us(2) have "strict_prefix us (drop (length root_dir) s)" unfolding rel_def .
      with fr inv DS sS have "lookup fs (out_root @ us) \<noteq> Some (File c)" by (rule no_file_above)
      with us(1) show ?thesis by simp
    qed
  qed
  have pre: "\<forall>r. r \<noteq> [] \<and> prefix r pd \<longrightarrow> (\<forall>c. lookup fs ([] @ r) \<noteq> Some (File c))"
    using nofile by simp
  from mkdir_parents_spec [OF pre] obtain fs1 where fs1:
    "mkdir_parents fs [] pd = Inr fs1"
    "\<forall>q. lookup fs1 q = (if lookup fs q = None \<and> (\<exists>r. r \<noteq> [] \<and> prefix r pd \<and> q = [] @ r) then Some Dir else lookup fs q)"
    "distinct (map fst fs) \<longrightarrow> distinct (map fst fs1)"
    by (elim exE conjE)
  have look: "lookup fs1 q = (if lookup fs q = None \<and> q \<noteq> [] \<and> prefix q pd then Some Dir else lookup fs q)" for q
    using fs1(2) [rule_format, of q] by auto
  have m: "mkdir fs (parent (out_root @ rel)) = Inr fs1" unfolding par mkdir_def by (rule fs1(1))
  from inv have d0: "distinct (map fst fs)"
    and i1: "\<And>q. \<not> prefix out_root q \<Longrightarrow> lookup fs q = lookup fs0 q"
    and i2: "\<And>q. prefix out_root q \<Longrightarrow> lookup fs q = Some Dir \<Longrightarrow> \<exists>s\<in>S. strict_prefix q (out_root @ drop (length root_dir) s)"
    and i3: "\<And>q c. prefix out_root q \<Longrightarrow> lookup fs q = Some (File c) \<Longrightarrow> \<exists>s\<in>D. q = out_root @ drop (length root_dir) s"
    and i4: "\<And>s. s \<in> D \<Longrightarrow> \<exists>t. lookup fs (out_root @ drop (length root_dir) s) = Some (File (Utf8 t)) \<and> P t"
    unfolding mirror_inv_def by fast+
  have n1: "distinct (map fst fs1)" using d0 fs1(3) by simp
  have n2: "lookup fs1 q = lookup fs0 q" if np: "\<not> prefix out_root q" for q
  proof (cases "lookup fs q = None \<and> q \<noteq> [] \<and> prefix q pd")
    case True
    then have "prefix q pd" by simp
    from cases_r [OF this] have "strict_prefix q out_root"
    proof
      assume "strict_prefix q out_root" then show ?thesis .
    next
      assume "\<exists>us. q = out_root @ us \<and> strict_prefix us rel"
      then obtain us where "q = out_root @ us" by (elim exE conjE)
      then have "prefix out_root q" by simp
      with np show ?thesis by simp
    qed
    with fr inv have "lookup fs q = Some Dir" by (rule above_out_is_dir)
    with True show ?thesis by simp
  next
    case False
    then have "lookup fs1 q = lookup fs q" using look [of q] by auto
    with i1 [OF np] show ?thesis by simp
  qed
  have n3: "\<exists>s\<in>S. strict_prefix q (out_root @ drop (length root_dir) s)"
    if p: "prefix out_root q" and l: "lookup fs1 q = Some Dir" for q
  proof (cases "lookup fs q = None \<and> q \<noteq> [] \<and> prefix q pd")
    case True
    then have a: "prefix q (butlast (out_root @ rel))" using par by (simp add: parent_def)
    have b: "out_root @ rel \<noteq> []" using rel by simp
    from b a have "strict_prefix q (out_root @ rel)" by (rule prefix_butlast_strict)
    then have "strict_prefix q (out_root @ drop (length root_dir) s)" unfolding rel_def .
    with sS show ?thesis by (rule rev_bexI)
  next
    case False
    then have "lookup fs1 q = lookup fs q" using look [of q] by auto
    with l have "lookup fs q = Some Dir" by simp
    with p show ?thesis by (rule i2)
  qed
  have n4: "\<exists>s\<in>D. q = out_root @ drop (length root_dir) s"
    if p: "prefix out_root q" and l: "lookup fs1 q = Some (File c)" for q c
  proof -
    from l have "lookup fs q = Some (File c)" using look [of q] by (auto split: if_splits)
    with p show ?thesis by (rule i3)
  qed
  have n5: "\<exists>t. lookup fs1 (out_root @ drop (length root_dir) s') = Some (File (Utf8 t)) \<and> P t" if "s' \<in> D" for s'
  proof -
    from i4 [OF that] obtain t where t: "lookup fs (out_root @ drop (length root_dir) s') = Some (File (Utf8 t))" "P t"
      by (elim exE conjE)
    then have "lookup fs1 (out_root @ drop (length root_dir) s') = Some (File (Utf8 t))"
      using look [of "out_root @ drop (length root_dir) s'"] by simp
    with t(2) show ?thesis by (intro exI conjI)
  qed
  have inv1: "mirror_inv fs0 root_dir out_root S D P fs1"
    unfolding mirror_inv_def
  proof (intro conjI allI impI ballI)
    show "distinct (map fst fs1)" by (rule n1)
  next
    fix q assume "\<not> prefix out_root q"
    then show "lookup fs1 q = lookup fs0 q" by (rule n2)
  next
    fix q assume "prefix out_root q \<and> lookup fs1 q = Some Dir"
    then show "\<exists>s\<in>S. strict_prefix q (out_root @ drop (length root_dir) s)"
      by (elim conjE) (rule n3)
  next
    fix q c assume "prefix out_root q \<and> lookup fs1 q = Some (File c)"
    then show "\<exists>s\<in>D. q = out_root @ drop (length root_dir) s"
      by (elim conjE) (rule n4)
  next
    fix s' assume "s' \<in> D"
    then show "\<exists>t. lookup fs1 (out_root @ drop (length root_dir) s') = Some (File (Utf8 t)) \<and> P t"
      by (rule n5)
  qed
  have pdne: "pd \<noteq> []" unfolding pd_def using out_ne by simp
  have pdd: "lookup fs1 pd = Some Dir"
  proof (cases "lookup fs pd")
    case None
    then show ?thesis using look [of pd] pdne by simp
  next
    case (Some v)
    have "\<And>c. lookup fs pd \<noteq> Some (File c)" using nofile [of pd] by simp
    with Some have "v = Dir" by (cases v) simp_all
    with Some show ?thesis using look [of pd] by simp
  qed
  have "\<not> prefix (out_root @ rel) pd"
  proof
    assume "prefix (out_root @ rel) pd"
    then have "length (out_root @ rel) \<le> length pd" by (rule prefix_length_le)
    then show False unfolding pd_def using rel by (cases rel rule: rev_cases) simp_all
  qed
  then have same: "lookup fs1 (out_root @ rel) = lookup fs (out_root @ rel)" using look [of "out_root @ rel"] by simp
  from m inv1 pdd same show ?thesis unfolding rel_def [symmetric] par by (intro exI conjI)
qed

lemma step_read:
  assumes fr: "walk_frame fs0 root_dir out_root S"
    and inv: "mirror_inv fs0 root_dir out_root S D P fs1"
    and sS: "s \<in> S"
  shows "\<exists>t. read_file fs1 (path_str s) = Inr t"
proof -
  from sS fr have sp: "strict_prefix root_dir s" and "\<exists>t. lookup fs0 s = Some (File (Utf8 t))"
    by (simp_all add: walk_frame_def)
  then obtain t where t: "lookup fs0 s = Some (File (Utf8 t))" by (elim exE)
  from fr have wf: "wf_fs fs0" and len: "length out_root = length root_dir" and ne: "out_root \<noteq> root_dir"
    by (simp_all add: walk_frame_def)
  from len ne sp have "\<not> prefix out_root s" by (rule sibling_not_prefix)
  with inv have "lookup fs1 s = lookup fs0 s" by (simp add: mirror_inv_def)
  with t have l1: "lookup fs1 s = Some (File (Utf8 t))" by simp
  from wf t have "list_all valid_name s" by (rule wf_names)
  then have ps: "Path (path_str s) = s" by (rule Path_path_str)
  have "read_file fs1 (path_str s) = Inr t"
    by (simp add: read_file_def ps path_exists_def read_text_def l1)
  then show ?thesis by (rule exI)
qed

lemma step_write:
  assumes fr: "walk_frame fs0 root_dir out_root S"
    and inv: "mirror_inv fs0 root_dir out_root S D P fs1"
    and DS: "D \<subseteq> S" and sS: "s \<in> S"
    and pd: "lookup fs1 (parent (out_root @ drop (length root_dir) s)) = Some Dir"
    and Pr: "P reply"
  shows "\<exists>fs3. write_text fs1 (out_root @ drop (length root_dir) s) reply = Inr fs3 \<and>
           mirror_inv fs0 root_dir out_root S (insert s D) P fs3"
proof -
  define rel where "rel = drop (length root_dir) s"
  define dst where "dst = out_root @ rel"
  from sS fr have sp: "strict_prefix root_dir s" and "\<exists>t. lookup fs0 s = Some (File (Utf8 t))"
    by (simp_all add: walk_frame_def)
  then obtain t0 where t0: "lookup fs0 s = Some (File (Utf8 t0))" by (elim exE)
  from sp have e: "s = root_dir @ rel" unfolding rel_def using under_root by fast
  from fr have wf: "wf_fs fs0" by (simp add: walk_frame_def)
  from inv have d1: "distinct (map fst fs1)"
    and i1: "\<And>q. \<not> prefix out_root q \<Longrightarrow> lookup fs1 q = lookup fs0 q"
    and i2: "\<And>q. prefix out_root q \<Longrightarrow> lookup fs1 q = Some Dir \<Longrightarrow> \<exists>s\<in>S. strict_prefix q (out_root @ drop (length root_dir) s)"
    and i3: "\<And>q c. prefix out_root q \<Longrightarrow> lookup fs1 q = Some (File c) \<Longrightarrow> \<exists>s\<in>D. q = out_root @ drop (length root_dir) s"
    and i4: "\<And>s. s \<in> D \<Longrightarrow> \<exists>t. lookup fs1 (out_root @ drop (length root_dir) s) = Some (File (Utf8 t)) \<and> P t"
    unfolding mirror_inv_def by fast+
  have pdst: "prefix out_root dst" unfolding dst_def by simp
  have nd: "lookup fs1 dst \<noteq> Some Dir"
  proof
    assume "lookup fs1 dst = Some Dir"
    with pdst have "\<exists>s\<in>S. strict_prefix dst (out_root @ drop (length root_dir) s)" by (rule i2)
    then obtain s' where s': "s' \<in> S" "strict_prefix dst (out_root @ drop (length root_dir) s')" by (elim bexE)
    from s'(2) obtain z zs where "out_root @ drop (length root_dir) s' = dst @ z # zs" by (rule strict_prefixE')
    then have r': "drop (length root_dir) s' = rel @ z # zs" unfolding dst_def by simp
    from s'(1) fr have "strict_prefix root_dir s'" and f': "\<exists>t. lookup fs0 s' = Some (File (Utf8 t))"
      by (simp_all add: walk_frame_def)
    then have "s' = root_dir @ drop (length root_dir) s'" using under_root by fast
    with r' e have "s' = s @ z # zs" by simp
    then have "strict_prefix s s'" by (rule strict_prefixI')
    moreover from f' obtain t' where "lookup fs0 s' = Some (File (Utf8 t'))" by (elim exE)
    ultimately have "lookup fs0 s = Some Dir" using wf wf_ancestors by fast
    with t0 show False by simp
  qed
  define fs3 where "fs3 = AList.update dst (File (Utf8 reply)) fs1"
  have w: "write_text fs1 dst reply = Inr fs3"
    using nd pd unfolding write_text_def fs3_def dst_def rel_def by simp
  have look: "lookup fs3 q = (if q = dst then Some (File (Utf8 reply)) else lookup fs1 q)" for q
    unfolding fs3_def by (rule lookup_update)
  have inv3: "mirror_inv fs0 root_dir out_root S (insert s D) P fs3"
    unfolding mirror_inv_def
  proof (intro conjI allI impI ballI)
    show "distinct (map fst fs3)" unfolding fs3_def using d1 by (rule distinct_update)
  next
    fix q assume np: "\<not> prefix out_root q"
    with pdst have "q \<noteq> dst" by auto
    then have "lookup fs3 q = lookup fs1 q" using look [of q] by simp
    with i1 [OF np] show "lookup fs3 q = lookup fs0 q" by simp
  next
    fix q assume a: "prefix out_root q \<and> lookup fs3 q = Some Dir"
    then have "q \<noteq> dst" using look [of q] by auto
    then have "lookup fs3 q = lookup fs1 q" using look [of q] by simp
    with a have "prefix out_root q" "lookup fs1 q = Some Dir" by simp_all
    then show "\<exists>s\<in>S. strict_prefix q (out_root @ drop (length root_dir) s)" by (rule i2)
  next
    fix q c assume a: "prefix out_root q \<and> lookup fs3 q = Some (File c)"
    show "\<exists>sa\<in>insert s D. q = out_root @ drop (length root_dir) sa"
    proof (cases "q = dst")
      case True
      then have "q = out_root @ drop (length root_dir) s" unfolding dst_def rel_def .
      then show ?thesis by simp
    next
      case False
      then have "lookup fs3 q = lookup fs1 q" using look [of q] by simp
      with a have "prefix out_root q" "lookup fs1 q = Some (File c)" by simp_all
      then have "\<exists>s\<in>D. q = out_root @ drop (length root_dir) s" by (rule i3)
      then show ?thesis by simp
    qed
  next
    fix sa assume sa: "sa \<in> insert s D"
    show "\<exists>t. lookup fs3 (out_root @ drop (length root_dir) sa) = Some (File (Utf8 t)) \<and> P t"
    proof (cases "out_root @ drop (length root_dir) sa = dst")
      case True
      then have "lookup fs3 (out_root @ drop (length root_dir) sa) = Some (File (Utf8 reply))"
        using look [of dst] by simp
      with Pr show ?thesis by (intro exI conjI)
    next
      case False
      then have "sa \<noteq> s" unfolding dst_def rel_def by auto
      with sa have "sa \<in> D" by simp
      then have "\<exists>t. lookup fs1 (out_root @ drop (length root_dir) sa) = Some (File (Utf8 t)) \<and> P t" by (rule i4)
      then show ?thesis using False look [of "out_root @ drop (length root_dir) sa"] by simp
    qed
  qed
  from w inv3 show ?thesis unfolding dst_def rel_def by (intro exI conjI)
qed

lemma call_claude_world:
  "snd (call_claude client msgs mt tp w) =
     w\<lparr>calls := calls w @ [\<lparr>req_model = MODEL_NAME, req_max_tokens = mt, req_temperature = tp, req_messages = msgs\<rparr>]\<rparr>"
  by (simp add: call_claude_def Let_def)

lemma folder_loop_mirror:
  assumes fr: "walk_frame fs0 root_dir out_root S"
    and bu: "\<And>fs path t. read_file fs path = Inr t \<Longrightarrow> \<exists>p. build fs path = Inr p"
    and cl: "\<And>msgs w. \<exists>reply. fst (call_claude client msgs (max_tokens a) (temperature a) w) = Inr reply \<and> P reply"
  shows "set srcs \<subseteq> S \<Longrightarrow> D \<subseteq> S \<Longrightarrow> mirror_inv fs0 root_dir out_root S D P (files w) \<Longrightarrow>
     \<exists>w'. folder_loop build verb client a root_dir out_root srcs count w = Done (count + length srcs) w' \<and>
          mirror_inv fs0 root_dir out_root S (D \<union> set srcs) P (files w') \<and>
          length (calls w') = length (calls w) + length srcs"
proof (induction srcs arbitrary: D count w)
  case Nil
  then show ?case by simp
next
  case (Cons src rest)
  from Cons.prems(1) have sS: "src \<in> S" and rS: "set rest \<subseteq> S" by simp_all
  from sS fr have "strict_prefix root_dir src" by (simp add: walk_frame_def)
  then have rt: "relative_to src root_dir = Inr (drop (length root_dir) src)"
    by (simp add: relative_to_def strict_prefix_def)
  from step_mkdir [OF fr Cons.prems(3) Cons.prems(2) sS] obtain fs1 where fs1:
    "mkdir (files w) (parent (out_root @ drop (length root_dir) src)) = Inr fs1"
    "mirror_inv fs0 root_dir out_root S D P fs1"
    "lookup fs1 (parent (out_root @ drop (length root_dir) src)) = Some Dir"
    by (elim exE conjE)
  from step_read [OF fr fs1(2) sS] obtain t where "read_file fs1 (path_str src) = Inr t" by (elim exE)
  from bu [OF this] obtain p where p: "build fs1 (path_str src) = Inr p" by (elim exE)
  define w1 where "w1 = w\<lparr>files := fs1\<rparr>"
  from cl [of "[(''user'', p)]" w1] obtain reply where
    reply: "fst (call_claude client [(''user'', p)] (max_tokens a) (temperature a) w1) = Inr reply" "P reply"
    by (elim exE conjE)
  define w2 where "w2 = snd (call_claude client [(''user'', p)] (max_tokens a) (temperature a) w1)"
  have cc: "call_claude client [(''user'', p)] (max_tokens a) (temperature a) w1 = (Inr reply, w2)"
    unfolding w2_def using reply(1) by (simp add: prod_eq_iff)
  have f2: "files w2 = fs1" and c2: "length (calls w2) = Suc (length (calls w))"
    unfolding w2_def call_claude_world w1_def by simp_all
  from step_write [OF fr fs1(2) Cons.prems(2) sS fs1(3) reply(2)] obtain fs3 where fs3:
    "write_text fs1 (out_root @ drop (length root_dir) src) reply = Inr fs3"
    "mirror_inv fs0 root_dir out_root S (insert src D) P fs3"
    by (elim exE conjE)
  define w3 where "w3 = print (''[OK] '' @ verb @ '' '' @ path_str src @ '' -> '' @
                               path_str (out_root @ drop (length root_dir) src)) (w2\<lparr>files := fs3\<rparr>)"
  have f3: "files w3 = fs3" and c3: "length (calls w3) = Suc (length (calls w))"
    unfolding w3_def print_def using c2 by simp_all
  have DS': "insert src D \<subseteq> S" using sS Cons.prems(2) by simp
  from fs3(2) have inv3: "mirror_inv fs0 root_dir out_root S (insert src D) P (files w3)" unfolding f3 .
  from Cons.IH [OF rS DS' inv3, of "count + 1"] obtain w' where w':
    "folder_loop build verb client a root_dir out_root rest (count + 1) w3 = Done (count + 1 + length rest) w'"
    "mirror_inv fs0 root_dir out_root S (insert src D \<union> set rest) P (files w')"
    "length (calls w') = length (calls w3) + length rest"
    by (elim exE conjE)
  have step: "folder_loop build verb client a root_dir out_root (src # rest) count w =
              folder_loop build verb client a root_dir out_root rest (count + 1) w3"
  proof -
    have f1: "files w1 = fs1" by (simp add: w1_def)
    show ?thesis
      using rt fs1(1) p cc fs3(1) f2 f1
      by (simp add: Let_def w1_def [symmetric] w3_def)
  qed
  have "folder_loop build verb client a root_dir out_root (src # rest) count w = Done (count + length (src # rest)) w'"
    unfolding step w'(1) by simp
  moreover have "mirror_inv fs0 root_dir out_root S (D \<union> set (src # rest)) P (files w')"
    using w'(2) by simp
  moreover have "length (calls w') = length (calls w) + length (src # rest)"
    using w'(3) c3 by simp
  ultimately show ?case by (intro exI conjI)
qed

lemma is_text_file_iff: "is_text_file fs p \<longleftrightarrow> (\<exists>t. lookup fs p = Some (File (Utf8 t)))"
  by (auto simp: is_text_file_def split: option.splits node.splits contents.splits)

lemma ready_frame:
  assumes rd: "batch_ready fs0 root_dir (out_root_of root_dir sfx)" and sfx: "sfx \<noteq> []"
  shows "walk_frame fs0 root_dir (out_root_of root_dir sfx) (set (iter_code_files fs0 root_dir))"
proof -
  from rd have wf: "wf_fs fs0" and dir: "lookup fs0 root_dir = Some Dir" and ne: "root_dir \<noteq> []"
    and tx: "list_all (is_text_file fs0) (iter_code_files fs0 root_dir)"
    by (simp_all add: batch_ready_def is_dir_def)
  have len: "length (out_root_of root_dir sfx) = length root_dir"
    using ne by (simp add: out_root_of_def)
  have bl: "butlast (out_root_of root_dir sfx) = butlast root_dir"
    by (simp add: out_root_of_def butlast_append)
  have neq: "out_root_of root_dir sfx \<noteq> root_dir"
  proof
    assume "out_root_of root_dir sfx = root_dir"
    then have "last (out_root_of root_dir sfx) = last root_dir" by simp
    then show False using ne sfx by (simp add: out_root_of_def path_name_def)
  qed
  have mem: "strict_prefix root_dir s \<and> (\<exists>t. lookup fs0 s = Some (File (Utf8 t)))"
    if "s \<in> set (iter_code_files fs0 root_dir)" for s
  proof -
    from that have "strict_prefix root_dir s" by (simp add: iter_code_files_def rglob_def)
    moreover from that tx have "is_text_file fs0 s" by (simp add: list_all_iff)
    ultimately show ?thesis by (simp add: is_text_file_iff)
  qed
  show ?thesis unfolding walk_frame_def using wf ne dir len bl neq mem by (intro conjI ballI) simp_all
qed

lemma ready_inv:
  assumes rd: "batch_ready fs0 root_dir out_root"
  shows "mirror_inv fs0 root_dir out_root S {} P fs0"
proof -
  from rd have wf: "wf_fs fs0" and nex: "lookup fs0 out_root = None"
    by (simp_all add: batch_ready_def path_exists_def)
  have none: "lookup fs0 q = None" if "prefix out_root q" for q
  proof (cases "lookup fs0 q")
    case None then show ?thesis .
  next
    case (Some n)
    show ?thesis
    proof (cases "q = out_root")
      case True with nex show ?thesis by simp
    next
      case False
      with that have "strict_prefix out_root q" by (simp add: strict_prefix_def)
      with wf Some have "lookup fs0 out_root = Some Dir" by (rule wf_ancestors)
      with nex show ?thesis by simp
    qed
  qed
  from wf have d: "distinct (map fst fs0)" by (simp add: wf_fs_def)
  show ?thesis unfolding mirror_inv_def
  proof (intro conjI allI impI ballI)
    show "distinct (map fst fs0)" by (rule d)
  next
    fix q assume "prefix out_root q \<and> lookup fs0 q = Some Dir"
    then show "\<exists>s\<in>S. strict_prefix q (out_root @ drop (length root_dir) s)" using none [of q] by simp
  next
    fix q c assume "prefix out_root q \<and> lookup fs0 q = Some (File c)"
    then show "\<exists>s\<in>{}. q = out_root @ drop (length root_dir) s" using none [of q] by simp
  qed simp_all
qed

lemma walk_ok:
  assumes rd: "batch_ready (files w0) root_dir (out_root_of root_dir sfx)" and sfx: "sfx \<noteq> []"
    and bu: "\<And>fs path t. read_file fs path = Inr t \<Longrightarrow> \<exists>p. build fs path = Inr p"
    and cl: "\<And>msgs w. \<exists>reply. fst (call_claude client msgs (max_tokens a) (temperature a) w) = Inr reply \<and> P reply"
  shows "\<exists>w'. folder_loop build verb client a root_dir (out_root_of root_dir sfx)
                 (iter_code_files (files w0) root_dir) 0 w0 =
               Done (length (iter_code_files (files w0) root_dir)) w' \<and>
             mirror_inv (files w0) root_dir (out_root_of root_dir sfx)
               (set (iter_code_files (files w0) root_dir)) (set (iter_code_files (files w0) root_dir)) P (files w') \<and>
             length (calls w') = length (calls w0) + length (iter_code_files (files w0) root_dir)"
proof -
  let ?S = "set (iter_code_files (files w0) root_dir)"
  from rd sfx have fr: "walk_frame (files w0) root_dir (out_root_of root_dir sfx) ?S" by (rule ready_frame)
  from rd have inv: "mirror_inv (files w0) root_dir (out_root_of root_dir sfx) ?S {} P (files w0)" by (rule ready_inv)
  have a: "set (iter_code_files (files w0) root_dir) \<subseteq> ?S" by simp
  have b: "{} \<subseteq> ?S" by simp
  from folder_loop_mirror [OF fr bu cl a b inv, where verb = verb and count = 0] show ?thesis by simp
qed

lemma build_fix_total: "read_file fs path = Inr t \<Longrightarrow> \<exists>p. build_fix_prompt fs path = Inr p"
  by (simp add: build_fix_prompt_def Let_def)

lemma build_refactor_total: "read_file fs path = Inr t \<Longrightarrow> \<exists>p. build_refactor_prompt fs path = Inr p"
  by (simp add: build_refactor_prompt_def Let_def)

lemma build_rewrite_total: "read_file fs path = Inr t \<Longrightarrow> \<exists>p. build_rewrite_prompt fs path = Inr p"
  by (simp add: build_rewrite_prompt_def Let_def)

lemma ready_with_name:
  assumes rd: "batch_ready fs root_dir out_root"
  shows "with_name root_dir (path_name root_dir @ sfx) = Inr (out_root_of root_dir sfx)"
proof -
  from rd have wf: "wf_fs fs" and dir: "lookup fs root_dir = Some Dir" and ne: "root_dir \<noteq> []"
    by (simp_all add: batch_ready_def is_dir_def)
  from wf dir have "list_all valid_name root_dir" by (rule wf_names)
  with ne have "valid_name (last root_dir)" by (simp add: list_all_iff)
  then have "path_name root_dir \<noteq> []" using ne by (simp add: path_name_def valid_name_def)
  then show ?thesis by (simp add: with_name_def out_root_of_def)
qed

lemma files_print: "files (print s w) = files w"
  by (simp add: print_def)

lemma calls_print: "calls (print s w) = calls w"
  by (simp add: print_def)

lemma last_stdout_print: "last (stdout (print s w)) = s"
  by (simp add: print_def)

lemma run_fix_folder_unfold:
  assumes "fix_folder a = Some folder" "path_exists (files w) (Path folder)" "is_dir (files w) (Path folder)"
    and "with_name (Path folder) (path_name (Path folder) @ ''_fixed'') = Inr out_root"
  shows "run_fix_folder client a w =
     (case folder_loop build_fix_prompt ''Fixed'' client a (Path folder) out_root
             (iter_code_files (files w) (Path folder)) 0
             (print (''[INFO] Fixing all supported code files in:\<newline>  '' @
                     path_str (Path folder) @ ''\<newline>[INFO] Output folder:\<newline>  '' @
                     path_str out_root @ ''\<newline>'') w) of
        Done count w' \<Rightarrow>
          Done () (print (''\<newline>[DONE] Fixed '' @ str_nat count @
                          '' file(s). Output project folder:\<newline>  '' @
                          path_str out_root @ ''\<newline>'') w')
      | Raised e w' \<Rightarrow> Raised e w')"
  using assms by (simp add: run_fix_folder_def Let_def files_print)

lemma run_refactor_folder_unfold:
  assumes "refactor_folder a = Some folder" "path_exists (files w) (Path folder)" "is_dir (files w) (Path folder)"
    and "with_name (Path folder) (path_name (Path folder) @ ''_refactored'') = Inr out_root"
  shows "run_refactor_folder client a w =
     (case folder_loop build_refactor_prompt ''Refactored'' client a (Path folder) out_root
             (iter_code_files (files w) (Path folder)) 0
             (print (''[INFO] Refactoring all supported code files in:\<newline>  '' @
                     path_str (Path folder) @ ''\<newline>[INFO] Output folder:\<newline>  '' @
                     path_str out_root @ ''\<newline>'') w) of
        Done count w' \<Rightarrow>
          Done () (print (''\<newline>[DONE] Refactored '' @ str_nat count @
                          '' file(s). Output project folder:\<newline>  '' @
                          path_str out_root @ ''\<newline>'') w')
      | Raised e w' \<Rightarrow> Raised e w')"
  using assms by (simp add: run_refactor_folder_def Let_def files_print)

lemma run_rewrite_folder_unfold:
  assumes "rewrite_folder a = Some folder" "path_exists (files w) (Path folder)" "is_dir (files w) (Path folder)"
    and "with_name (Path folder) (path_name (Path folder) @ ''_rewritten'') = Inr out_root"
  shows "run_rewrite_folder client a w =
     (case folder_loop build_rewrite_prompt ''Rewrote'' client a (Path folder) out_root
             (iter_code_files (files w) (Path folder)) 0
             (print ''[WARN] This is an aggressive mode. Resulting code may not be drop-in compatible.\<newline>''
                (print (''[INFO] REWRITING all supported code files in:\<newline>  '' @
                        path_str (Path folder) @ ''\<newline>[INFO] Output folder:\<newline>  '' @
                        path_str out_root @ ''\<newline>'') w)) of
        Done count w' \<Rightarrow>
          Done () (print (''\<newline>[DONE] Rewrote '' @ str_nat count @
                          '' file(s). Output project folder:\<newline>  '' @
                          path_str out_root @ ''\<newline>'') w')
      | Raised e w' \<Rightarrow> Raised e w')"
  using assms by (simp add: run_rewrite_folder_def Let_def files_print)

lemma close_run:
  assumes "r = Done () (print line w')" and "mirror_inv A B C D E P (files w')"
    and "length (calls w') = n" and "line = line'"
  shows "\<exists>w''. r = Done () w'' \<and> mirror_inv A B C D E P (files w'') \<and> length (calls w'') = n \<and>
               last (stdout w'') = line'"
proof (intro exI conjI)
  show "r = Done () (print line w')" by (rule assms(1))
  show "mirror_inv A B C D E P (files (print line w'))" unfolding files_print by (rule assms(2))
  show "length (calls (print line w')) = n" unfolding calls_print by (rule assms(3))
  show "last (stdout (print line w')) = line'" unfolding last_stdout_print by (rule assms(4))
qed

lemma run_folder_mode_ok:
  assumes fo: "folder_of m a = Some folder"
    and rd: "batch_ready (files w) (Path folder) (out_root_of (Path folder) (out_suffix m))"
    and cl: "\<And>msgs w. \<exists>reply. fst (call_claude client msgs (max_tokens a) (temperature a) w) = Inr reply \<and> P reply"
  shows "\<exists>w'. run_mode m client a w = Done () w' \<and>
           mirror_inv (files w) (Path folder) (out_root_of (Path folder) (out_suffix m))
             (set (iter_code_files (files w) (Path folder))) (set (iter_code_files (files w) (Path folder))) P (files w') \<and>
           length (calls w') = length (calls w) + length (iter_code_files (files w) (Path folder)) \<and>
           last (stdout w') = done_line m (length (iter_code_files (files w) (Path folder)))
                                (out_root_of (Path folder) (out_suffix m))"
proof -
  from rd have ex: "path_exists (files w) (Path folder)" and dir: "is_dir (files w) (Path folder)"
    by (simp_all add: batch_ready_def is_dir_def path_exists_def)
  from fo consider (cfix) "m = FixFolder" "fix_folder a = Some folder"
    | (crefactor) "m = RefactorFolder" "refactor_folder a = Some folder"
    | (crewrite) "m = RewriteFolder" "rewrite_folder a = Some folder"
    by (cases m) simp_all
  then show ?thesis
  proof cases
    case cfix
    let ?out = "out_root_of (Path folder) ''_fixed''"
    let ?n = "length (iter_code_files (files w) (Path folder))"
    let ?w0 = "print (''[INFO] Fixing all supported code files in:\<newline>  '' @
                     path_str (Path folder) @ ''\<newline>[INFO] Output folder:\<newline>  '' @
                     path_str ?out @ ''\<newline>'') w"
    have sx: "out_suffix m = ''_fixed''" unfolding cfix(1) by simp
    from rd have rd1: "batch_ready (files w) (Path folder) ?out" unfolding sx .
    then have rd0: "batch_ready (files ?w0) (Path folder) ?out" unfolding files_print .
    have wn: "with_name (Path folder) (path_name (Path folder) @ ''_fixed'') = Inr ?out"
      using rd1 by (rule ready_with_name)
    have "\<exists>w'. folder_loop build_fix_prompt ''Fixed'' client a (Path folder) ?out
                 (iter_code_files (files ?w0) (Path folder)) 0 ?w0 =
               Done (length (iter_code_files (files ?w0) (Path folder))) w' \<and>
             mirror_inv (files ?w0) (Path folder) ?out
               (set (iter_code_files (files ?w0) (Path folder))) (set (iter_code_files (files ?w0) (Path folder))) P (files w') \<and>
             length (calls w') = length (calls ?w0) + length (iter_code_files (files ?w0) (Path folder))"
    proof (rule walk_ok)
      show "batch_ready (files ?w0) (Path folder) ?out" by (rule rd0)
      show "''_fixed'' \<noteq> []" by simp
      show "\<And>fs path t. read_file fs path = Inr t \<Longrightarrow> \<exists>p. build_fix_prompt fs path = Inr p" by (rule build_fix_total)
      show "\<And>msgs w. \<exists>reply. fst (call_claude client msgs (max_tokens a) (temperature a) w) = Inr reply \<and> P reply"
        by (rule cl)
    qed
    then obtain w' where w':
      "folder_loop build_fix_prompt ''Fixed'' client a (Path folder) ?out
         (iter_code_files (files w) (Path folder)) 0 ?w0 = Done ?n w'"
      "mirror_inv (files w) (Path folder) ?out
         (set (iter_code_files (files w) (Path folder))) (set (iter_code_files (files w) (Path folder))) P (files w')"
      "length (calls w') = length (calls w) + ?n"
      unfolding files_print calls_print by (elim exE conjE)
    have run: "run_mode m client a w =
          Done () (print (''\<newline>[DONE] Fixed '' @ str_nat ?n @
                          '' file(s). Output project folder:\<newline>  '' @
                          path_str ?out @ ''\<newline>'') w')"
      unfolding cfix(1) run_mode.simps run_fix_folder_unfold [OF cfix(2) ex dir wn] w'(1) by simp
    have ln: "''\<newline>[DONE] Fixed '' @ str_nat ?n @ '' file(s). Output project folder:\<newline>  '' @
                          path_str ?out @ ''\<newline>'' = done_line m ?n ?out"
      unfolding cfix(1) by (simp add: done_line_def)
    show ?thesis unfolding sx using run w'(2) w'(3) ln by (rule close_run)
  next
    case crefactor
    let ?out = "out_root_of (Path folder) ''_refactored''"
    let ?n = "length (iter_code_files (files w) (Path folder))"
    let ?w0 = "print (''[INFO] Refactoring all supported code files in:\<newline>  '' @
                     path_str (Path folder) @ ''\<newline>[INFO] Output folder:\<newline>  '' @
                     path_str ?out @ ''\<newline>'') w"
    have sx: "out_suffix m = ''_refactored''" unfolding crefactor(1) by simp
    from rd have rd1: "batch_ready (files w) (Path folder) ?out" unfolding sx .
    then have rd0: "batch_ready (files ?w0) (Path folder) ?out" unfolding files_print .
    have wn: "with_name (Path folder) (path_name (Path folder) @ ''_refactored'') = Inr ?out"
      using rd1 by (rule ready_with_name)
    have "\<exists>w'. folder_loop build_refactor_prompt ''Refactored'' client a (Path folder) ?out
                 (iter_code_files (files ?w0) (Path folder)) 0 ?w0 =
               Done (length (iter_code_files (files ?w0) (Path folder))) w' \<and>
             mirror_inv (files ?w0) (Path folder) ?out
               (set (iter_code_files (files ?w0) (Path folder))) (set (iter_code_files (files ?w0) (Path folder))) P (files w') \<and>
             length (calls w') = length (calls ?w0) + length (iter_code_files (files ?w0) (Path folder))"
    proof (rule walk_ok)
      show "batch_ready (files ?w0) (Path folder) ?out" by (rule rd0)
      show "''_refactored'' \<noteq> []" by simp
      show "\<And>fs path t. read_file fs path = Inr t \<Longrightarrow> \<exists>p. build_refactor_prompt fs path = Inr p" by (rule build_refactor_total)
      show "\<And>msgs w. \<exists>reply. fst (call_claude client msgs (max_tokens a) (temperature a) w) = Inr reply \<and> P reply"
        by (rule cl)
    qed
    then obtain w' where w':
      "folder_loop build_refactor_prompt ''Refactored'' client a (Path folder) ?out
         (iter_code_files (files w) (Path folder)) 0 ?w0 = Done ?n w'"
      "mirror_inv (files w) (Path folder) ?out
         (set (iter_code_files (files w) (Path folder))) (set (iter_code_files (files w) (Path folder))) P (files w')"
      "length (calls w') = length (calls w) + ?n"
      unfolding files_print calls_print by (elim exE conjE)
    have run: "run_mode m client a w =
          Done () (print (''\<newline>[DONE] Refactored '' @ str_nat ?n @
                          '' file(s). Output project folder:\<newline>  '' @
                          path_str ?out @ ''\<newline>'') w')"
      unfolding crefactor(1) run_mode.simps run_refactor_folder_unfold [OF crefactor(2) ex dir wn] w'(1) by simp
    have ln: "''\<newline>[DONE] Refactored '' @ str_nat ?n @ '' file(s). Output project folder:\<newline>  '' @
                          path_str ?out @ ''\<newline>'' = done_line m ?n ?out"
      unfolding crefactor(1) by (simp add: done_line_def)
    show ?thesis unfolding sx using run w'(2) w'(3) ln by (rule close_run)
  next
    case crewrite
    let ?out = "out_root_of (Path folder) ''_rewritten''"
    let ?n = "length (iter_code_files (files w) (Path folder))"
    let ?w0 = "print ''[WARN] This is an aggressive mode. Resulting code may not be drop-in compatible.\<newline>''
                (print (''[INFO] REWRITING all supported code files in:\<newline>  '' @
                        path_str (Path folder) @ ''\<newline>[INFO] Output folder:\<newline>  '' @
                        path_str ?out @ ''\<newline>'') w)"
    have sx: "out_suffix m = ''_rewritten''" unfolding crewrite(1) by simp
    from rd have rd1: "batch_ready (files w) (Path folder) ?out" unfolding sx .
    then have rd0: "batch_ready (files ?w0) (Path folder) ?out" unfolding files_print .
    have wn: "with_name (Path folder) (path_name (Path folder) @ ''_rewritten'') = Inr ?out"
      using rd1 by (rule ready_with_name)
    have "\<exists>w'. folder_loop build_rewrite_prompt ''Rewrote'' client a (Path folder) ?out
                 (iter_code_files (files ?w0) (Path folder)) 0 ?w0 =
               Done (length (iter_code_files (files ?w0) (Path folder))) w' \<and>
             mirror_inv (files ?w0) (Path folder) ?out
               (set (iter_code_files (files ?w0) (Path folder))) (set (iter_code_files (files ?w0) (Path folder))) P (files w') \<and>
             length (calls w') = length (calls ?w0) + length (iter_code_files (files ?w0) (Path folder))"
    proof (rule walk_ok)
      show "batch_ready (files ?w0) (Path folder) ?out" by (rule rd0)
      show "''_rewritten'' \<noteq> []" by simp
      show "\<And>fs path t. read_file fs path = Inr t \<Longrightarrow> \<exists>p. build_rewrite_prompt fs path = Inr p" by (rule build_rewrite_total)
      show "\<And>msgs w. \<exists>reply. fst (call_claude client msgs (max_tokens a) (temperature a) w) = Inr reply \<and> P reply"
        by (rule cl)
    qed
    then obtain w' where w':
      "folder_loop build_rewrite_prompt ''Rewrote'' client a (Path folder) ?out
         (iter_code_files (files w) (Path folder)) 0 ?w0 = Done ?n w'"
      "mirror_inv (files w) (Path folder) ?out
         (set (iter_code_files (files w) (Path folder))) (set (iter_code_files (files w) (Path folder))) P (files w')"
      "length (calls w') = length (calls w) + ?n"
      unfolding files_print calls_print by (elim exE conjE)
    have run: "run_mode m client a w =
          Done () (print (''\<newline>[DONE] Rewrote '' @ str_nat ?n @
                          '' file(s). Output project folder:\<newline>  '' @
                          path_str ?out @ ''\<newline>'') w')"
      unfolding crewrite(1) run_mode.simps run_rewrite_folder_unfold [OF crewrite(2) ex dir wn] w'(1) by simp
    have ln: "''\<newline>[DONE] Rewrote '' @ str_nat ?n @ '' file(s). Output project folder:\<newline>  '' @
                          path_str ?out @ ''\<newline>'' = done_line m ?n ?out"
      unfolding crewrite(1) by (simp add: done_line_def)
    show ?thesis unfolding sx using run w'(2) w'(3) ln by (rule close_run)
  qed
qed

end
